theory Spec2Isabelle
  imports Main "HOL-Library.Word" "HOL-Library.Multiset" "HOL-Library.List_Lexorder"
    "HOL-Library.Char_ord" "HOL-Library.Option_ord"
begin

section \<open>Values, errors and nullable holders\<close>

text \<open>
  The pipeline of \<^verbatim>\<open>main.go\<close> talks to two stores through Go's \<^verbatim>\<open>database/sql\<close>.
  A cell that travels between a store and the program is a \<^verbatim>\<open>driver.Value\<close>: nil,
  int64, float64, bool, a byte slice, a string or a \<^verbatim>\<open>time.Time\<close>. A float64 is kept as
  its 64-bit pattern (the pipeline never computes with it) and an instant as an integer.
\<close>

type_synonym float64 = "64 word"
type_synonym Time = int

datatype dvalue =
    DNull
  | DInt "64 word"
  | DFloat float64
  | DBool bool
  | DBytes "8 word list"
  | DString string
  | DTime Time

text \<open>
  Go errors: an error reported by a driver or by \<^verbatim>\<open>database/sql\<close>, the error of
  \<^verbatim>\<open>rows.Scan\<close> for one column (index and cause), and \<^verbatim>\<open>fmt.Errorf("<msg>: %w", err)\<close>,
  which wraps a cause under a message.
\<close>

datatype error =
    DriverError string
  | ScanError nat error
  | Errorf string error

text \<open>
  \<^verbatim>\<open>sql.NullString\<close>, \<^verbatim>\<open>sql.NullTime\<close> and \<^verbatim>\<open>sql.NullFloat64\<close> are structs of a value
  (\<^verbatim>\<open>String\<close>, \<^verbatim>\<open>Time\<close>, \<^verbatim>\<open>Float64\<close>; here the field \<open>V\<close>) and the flag \<^verbatim>\<open>Valid\<close>.
\<close>

record 'a Null =
  V :: 'a
  Valid :: bool

type_synonym NullString = "string Null"
type_synonym NullTime = "Time Null"
type_synonym NullFloat64 = "float64 Null"

text \<open>
  What \<^verbatim>\<open>convertAssign\<close> of \<^verbatim>\<open>database/sql\<close> makes of a non-nil driver value, for each of
  the three destination types. The conversions belong to the library and the driver, so
  they are a parameter of the model; each may fail.
\<close>

record converter =
  to_string :: "dvalue \<Rightarrow> error + string"
  to_Time :: "dvalue \<Rightarrow> error + Time"
  to_float64 :: "dvalue \<Rightarrow> error + float64"

text \<open>
  The \<^verbatim>\<open>Scan\<close> method of the three holders: nil gives the zero value with
  \<^verbatim>\<open>Valid = false\<close> and never fails; any other value is converted and marked valid.
\<close>

definition Null_Scan :: "'a \<Rightarrow> (dvalue \<Rightarrow> error + 'a) \<Rightarrow> dvalue \<Rightarrow> error + 'a Null" where
  "Null_Scan zero conv val =
     (if val = DNull then Inr \<lparr>V = zero, Valid = False\<rparr>
      else (case conv val of
              Inl e \<Rightarrow> Inl e
            | Inr x \<Rightarrow> Inr \<lparr>V = x, Valid = True\<rparr>))"

definition NullString_Scan :: "converter \<Rightarrow> dvalue \<Rightarrow> error + NullString" where
  "NullString_Scan cv = Null_Scan [] (to_string cv)"

definition NullTime_Scan :: "converter \<Rightarrow> dvalue \<Rightarrow> error + NullTime" where
  "NullTime_Scan cv = Null_Scan 0 (to_Time cv)"

definition NullFloat64_Scan :: "converter \<Rightarrow> dvalue \<Rightarrow> error + NullFloat64" where
  "NullFloat64_Scan cv = Null_Scan 0 (to_float64 cv)"

text \<open>
  The \<^verbatim>\<open>Value\<close> method, through which a holder is bound as a statement parameter:
  nil when the holder is not valid, the held value otherwise.
\<close>

definition Null_Value :: "('a \<Rightarrow> dvalue) \<Rightarrow> 'a Null \<Rightarrow> dvalue" where
  "Null_Value wrap n = (if \<not> Valid n then DNull else wrap (V n))"

definition NullString_Value :: "NullString \<Rightarrow> dvalue" where
  "NullString_Value = Null_Value DString"

definition NullTime_Value :: "NullTime \<Rightarrow> dvalue" where
  "NullTime_Value = Null_Value DTime"

definition NullFloat64_Value :: "NullFloat64 \<Rightarrow> dvalue" where
  "NullFloat64_Value = Null_Value DFloat"

section \<open>The source store and the extraction query\<close>

definition sourceTableName :: string where
  "sourceTableName = ''Sales''"

definition targetTableName :: string where
  "targetTableName = ''SalesDB''"

text \<open>
  A stored row gives a value to each column name. The extraction query of \<^verbatim>\<open>runETL\<close> is
  kept as its three parts: the select list, the table and the \<^verbatim>\<open>ORDER BY\<close> column.
\<close>

type_synonym named_row = "(string \<times> dvalue) list"

record select_query =
  select_list :: "string list"
  from_table :: string
  order_by :: string

definition query :: select_query where
  "query =
     \<lparr>select_list =
        [''fsno'', ''salestype'', ''attachmentno'', ''customer'', ''region'', ''date'',
         ''code'', ''name'', ''measurementunit'', ''unitprice'', ''soldquantity'', ''netpay''],
      from_table = sourceTableName,
      order_by = ''fsno''\<rparr>"

text \<open>
  The source store: its tables, each a list of rows in storage order; the collation, a key
  function into a linear order by which the server compares values when it sorts; an
  error that prevents the query from being issued; and a failure of the row stream after a
  number of rows, which \<^verbatim>\<open>rows.Err()\<close> reports once \<^verbatim>\<open>rows.Next()\<close> has returned false.
\<close>

record 'o sourceDB =
  tables :: "(string \<times> named_row list) list"
  collation :: "dvalue \<Rightarrow> 'o"
  query_err :: "error option"
  stream_err :: "(nat \<times> error) option"

record Rows =
  cursor :: "dvalue list list"
  Err :: "error option"

text \<open>
  One row under the query: its sort key and the values of the select list, in the order
  of the select list. A column that the row does not have makes the query invalid.
\<close>

definition eval_row :: "select_query \<Rightarrow> named_row \<Rightarrow> (dvalue \<times> dvalue list) option" where
  "eval_row q r =
     (case map_of r (order_by q) of
        None \<Rightarrow> None
      | Some k \<Rightarrow>
          (case those (map (map_of r) (select_list q)) of
             None \<Rightarrow> None
           | Some vs \<Rightarrow> Some (k, vs)))"

text \<open>
  \<^verbatim>\<open>sourceDB.Query(query)\<close>: the rows of the table, sorted ascending by the \<^verbatim>\<open>ORDER BY\<close>
  column. The query gives no order among rows with equal keys; the server of the model
  leaves them in storage order, which belongs to the server and not to the data: the same
  rows may be stored in another order.
\<close>

definition Query :: "('o::linorder) sourceDB \<Rightarrow> select_query \<Rightarrow> error + Rows" where
  "Query db q =
     (case query_err db of
        Some e \<Rightarrow> Inl e
      | None \<Rightarrow>
          (case map_of (tables db) (from_table q) of
             None \<Rightarrow> Inl (DriverError ''mssql: Invalid object name'')
           | Some tbl \<Rightarrow>
               (case those (map (eval_row q) tbl) of
                  None \<Rightarrow> Inl (DriverError ''mssql: Invalid column name'')
                | Some kvs \<Rightarrow>
                    (let sorted_rows = map snd (sort_key (\<lambda>kv. collation db (fst kv)) kvs)
                     in Inr (case stream_err db of
                               None \<Rightarrow> \<lparr>cursor = sorted_rows, Err = None\<rparr>
                             | Some (n, e) \<Rightarrow> \<lparr>cursor = take n sorted_rows, Err = Some e\<rparr>)))))"

section \<open>The target store and the insert statement\<close>

text \<open>
  The insert statement of \<^verbatim>\<open>runETL\<close>: the table, the column list, the placeholders of the
  \<^verbatim>\<open>VALUES\<close> list (\<^verbatim>\<open>$n\<close> is the n-th argument of \<^verbatim>\<open>Exec\<close>) and the conflict target of
  \<^verbatim>\<open>ON CONFLICT (fsno) DO NOTHING\<close>.
\<close>

record insert_stmt =
  into_table :: string
  into_columns :: "string list"
  placeholders :: "nat list"
  conflict_target :: string

definition insertSQL :: insert_stmt where
  "insertSQL =
     \<lparr>into_table = targetTableName,
      into_columns =
        [''fsno'', ''salestype'', ''attachmentno'', ''customer'', ''region'', ''sale_date'',
         ''code'', ''item_name'', ''measurement_unit'', ''unit_price'', ''sold_quantity'',
         ''net_pay''],
      placeholders = [1, 2, 3, 4, 5, 6, 7, 8, 9, 10, 11, 12],
      conflict_target = ''fsno''\<rparr>"

text \<open>
  The target store: the committed rows of the table \<^verbatim>\<open>SalesDB\<close>, and the failures the
  store can answer with. \<open>exec_err\<close> is the hard error (constraint violation, type
  mismatch, lost connection) with which the store answers the i-th \<^verbatim>\<open>Exec\<close> of a
  transaction for the given arguments, if any. A stored row keeps each value as it was
  bound; what a column type makes of a value that is not NULL is left out.
\<close>

record targetDB =
  SalesDB :: "named_row list"
  begin_err :: "error option"
  prepare_err :: "error option"
  exec_err :: "nat \<Rightarrow> dvalue list \<Rightarrow> error option"
  commit_err :: "error option"

text \<open>
  A transaction (\<^verbatim>\<open>sql.Tx\<close>): the rows as the transaction sees them, the number of
  statements executed so far, and the flag \<^verbatim>\<open>done\<close> (here \<open>tx_done\<close>) that \<^verbatim>\<open>Commit\<close> sets.
\<close>

record tx =
  pending :: "named_row list"
  nexec :: nat
  tx_done :: bool

definition Begin :: "targetDB \<Rightarrow> error + tx" where
  "Begin db =
     (case begin_err db of
        Some e \<Rightarrow> Inl e
      | None \<Rightarrow> Inr \<lparr>pending = SalesDB db, nexec = 0, tx_done = False\<rparr>)"

definition Prepare :: "targetDB \<Rightarrow> insert_stmt \<Rightarrow> error + insert_stmt" where
  "Prepare db stmt = (case prepare_err db of Some e \<Rightarrow> Inl e | None \<Rightarrow> Inr stmt)"

text \<open>The row an insert writes: each column of the column list with its placeholder's argument.\<close>

definition new_row :: "insert_stmt \<Rightarrow> dvalue list \<Rightarrow> named_row" where
  "new_row stmt as = zip (into_columns stmt) (map (\<lambda>n. as ! (n - 1)) (placeholders stmt))"

text \<open>
  The table that \<^verbatim>\<open>ensureTargetTable\<close> creates when it is absent: its name, its columns
  with their types, and its primary key.
\<close>

record create_table =
  table_name :: string
  table_columns :: "(string \<times> string) list"
  primary_key :: string

definition createTableSQL :: create_table where
  "createTableSQL =
     \<lparr>table_name = targetTableName,
      table_columns =
        [(''fsno'', ''VARCHAR(50)''), (''salestype'', ''VARCHAR(50)''),
         (''attachmentno'', ''VARCHAR(50)''), (''customer'', ''VARCHAR(100)''),
         (''region'', ''VARCHAR(50)''), (''sale_date'', ''DATE''), (''code'', ''VARCHAR(50)''),
         (''item_name'', ''VARCHAR(100)''), (''measurement_unit'', ''VARCHAR(50)''),
         (''unit_price'', ''NUMERIC(12, 2)''), (''sold_quantity'', ''NUMERIC(12, 2)''),
         (''net_pay'', ''NUMERIC(12, 2)'')],
      primary_key = ''fsno''\<rparr>"

text \<open>
  The hard error of one \<^verbatim>\<open>Exec\<close>, if any: the store's own failure; a wrong number of
  arguments; a conflict target that is not the primary key, the only unique constraint of
  the table; or a NULL in the primary key column, which the primary key rejects (a
  conflict clause resolves a duplicate key, not a NULL key).
\<close>

definition hard_error :: "targetDB \<Rightarrow> insert_stmt \<Rightarrow> nat \<Rightarrow> dvalue list \<Rightarrow> error option" where
  "hard_error db stmt i as =
     (case exec_err db i as of
        Some e \<Rightarrow> Some e
      | None \<Rightarrow>
          if length as \<noteq> length (placeholders stmt)
          then Some (DriverError ''pq: wrong number of parameters'')
          else if conflict_target stmt \<noteq> primary_key createTableSQL
          then Some (DriverError ''pq: no unique constraint matching ON CONFLICT'')
          else (case map_of (new_row stmt as) (primary_key createTableSQL) of
                  None \<Rightarrow> Some (DriverError ''pq: null value violates not-null constraint'')
                | Some k \<Rightarrow>
                    if k = DNull
                    then Some (DriverError ''pq: null value violates not-null constraint'')
                    else None))"

text \<open>
  \<^verbatim>\<open>stmt.Exec(args...)\<close> inside the transaction: a hard error, or the insert with
  \<^verbatim>\<open>ON CONFLICT (fsno) DO NOTHING\<close>: when a row with the same key is there, nothing is
  written and no error is raised; otherwise the new row is added.
\<close>

definition key_of :: "insert_stmt \<Rightarrow> named_row \<Rightarrow> dvalue option" where
  "key_of stmt r = map_of r (conflict_target stmt)"

definition insert_on_conflict_do_nothing ::
  "insert_stmt \<Rightarrow> named_row list \<Rightarrow> dvalue list \<Rightarrow> named_row list" where
  "insert_on_conflict_do_nothing stmt tbl as =
     (if key_of stmt (new_row stmt as) \<in> key_of stmt ` set tbl then tbl
      else tbl @ [new_row stmt as])"

definition stmt_Exec :: "targetDB \<Rightarrow> insert_stmt \<Rightarrow> tx \<Rightarrow> dvalue list \<Rightarrow> error + tx" where
  "stmt_Exec db stmt t as =
     (case hard_error db stmt (nexec t) as of
        Some e \<Rightarrow> Inl e
      | None \<Rightarrow>
          Inr (t\<lparr>pending := insert_on_conflict_do_nothing stmt (pending t) as,
                 nexec := Suc (nexec t)\<rparr>))"

text \<open>
  \<^verbatim>\<open>tx.Commit()\<close> marks the transaction done in either case; the rows become the
  committed rows only when the store accepts the commit.
\<close>

definition Commit :: "targetDB \<Rightarrow> tx \<Rightarrow> error + targetDB" where
  "Commit db t =
     (case commit_err db of
        Some e \<Rightarrow> Inl e
      | None \<Rightarrow> Inr (db\<lparr>SalesDB := pending t\<rparr>))"

section \<open>The pipeline\<close>

text \<open>
  The twelve variables that the loop of \<^verbatim>\<open>runETL\<close> declares for each row.
\<close>

record vars =
  fsno :: NullString
  salestype :: NullString
  attachmentno :: NullString
  customer :: NullString
  region :: NullString
  date :: NullTime
  code :: NullString
  name :: NullString
  measurementunit :: NullString
  unitprice :: NullFloat64
  soldquantity :: NullFloat64
  netpay :: NullFloat64

text \<open>
  \<^verbatim>\<open>rows.Scan\<close> assigns the columns of the current row to its destinations from left to
  right and stops at the first column that does not convert, reporting its index.
\<close>

definition scan_col :: "nat \<Rightarrow> error + 'a \<Rightarrow> ('a \<Rightarrow> error + 'b) \<Rightarrow> error + 'b" where
  "scan_col i r k = (case r of Inl e \<Rightarrow> Inl (ScanError i e) | Inr x \<Rightarrow> k x)"

definition Scan :: "converter \<Rightarrow> dvalue list \<Rightarrow> error + vars" where
  "Scan cv cols =
     (case cols of
        [c0, c1, c2, c3, c4, c5, c6, c7, c8, c9, c10, c11] \<Rightarrow>
          scan_col 0 (NullString_Scan cv c0) (\<lambda>fsno'.
          scan_col 1 (NullString_Scan cv c1) (\<lambda>salestype'.
          scan_col 2 (NullString_Scan cv c2) (\<lambda>attachmentno'.
          scan_col 3 (NullString_Scan cv c3) (\<lambda>customer'.
          scan_col 4 (NullString_Scan cv c4) (\<lambda>region'.
          scan_col 5 (NullTime_Scan cv c5) (\<lambda>date'.
          scan_col 6 (NullString_Scan cv c6) (\<lambda>code'.
          scan_col 7 (NullString_Scan cv c7) (\<lambda>name'.
          scan_col 8 (NullString_Scan cv c8) (\<lambda>measurementunit'.
          scan_col 9 (NullFloat64_Scan cv c9) (\<lambda>unitprice'.
          scan_col 10 (NullFloat64_Scan cv c10) (\<lambda>soldquantity'.
          scan_col 11 (NullFloat64_Scan cv c11) (\<lambda>netpay'.
            Inr \<lparr>fsno = fsno', salestype = salestype', attachmentno = attachmentno',
                 customer = customer', region = region', date = date', code = code',
                 name = name', measurementunit = measurementunit', unitprice = unitprice',
                 soldquantity = soldquantity', netpay = netpay'\<rparr>))))))))))))
      | _ \<Rightarrow> Inl (DriverError ''sql: expected 12 destination arguments in Scan''))"

text \<open>The arguments of \<^verbatim>\<open>stmt.Exec\<close>, each holder bound through its \<^verbatim>\<open>Value\<close> method.\<close>

definition args :: "vars \<Rightarrow> dvalue list" where
  "args v =
     [NullString_Value (fsno v), NullString_Value (salestype v),
      NullString_Value (attachmentno v), NullString_Value (customer v),
      NullString_Value (region v), NullTime_Value (date v), NullString_Value (code v),
      NullString_Value (name v), NullString_Value (measurementunit v),
      NullFloat64_Value (unitprice v), NullFloat64_Value (soldquantity v),
      NullFloat64_Value (netpay v)]"

text \<open>
  What a run does to the outside, in order: the calls that reach the two stores and the
  lines written to the log. The deferred \<^verbatim>\<open>tx.Rollback()\<close> reaches the store only while
  the transaction is not done.
\<close>

datatype logline =
    StartingTransfer
  | ScanSkip nat error
  | InsertFailed string error

datatype event =
    SrcQuery
  | RowsClose
  | TgtBegin
  | TxPrepare
  | StmtExec "dvalue list"
  | StmtClose
  | TxCommit
  | TxRollback
  | Log logline

record outcome =
  ret_count :: nat
  ret_err :: "error option"
  target :: targetDB
  trace :: "event list"

text \<open>
  The loop \<^verbatim>\<open>for rows.Next()\<close>. It returns the counter, the error of an early return if
  there was one, the transaction and the trace extended by the events of the loop. The
  counter is a Go \<^verbatim>\<open>int\<close>; it is incremented once per row, so it stays far below
  \<open>2^63\<close> and is a natural number here.
\<close>

fun transfer ::
  "converter \<Rightarrow> targetDB \<Rightarrow> insert_stmt \<Rightarrow> dvalue list list \<Rightarrow> nat \<Rightarrow> tx \<Rightarrow> event list
     \<Rightarrow> nat \<times> error option \<times> tx \<times> event list" where
  "transfer cv db stmt [] totalRows t tr = (totalRows, None, t, tr)"
| "transfer cv db stmt (cols # rest) totalRows t tr =
     (case Scan cv cols of
        Inl err \<Rightarrow>
          transfer cv db stmt rest totalRows t (tr @ [Log (ScanSkip (totalRows + 1) err)])
      | Inr v \<Rightarrow>
          (case stmt_Exec db stmt t (args v) of
             Inl err \<Rightarrow>
               (totalRows, Some (Errorf ''error executing insert statement'' err), t,
                tr @ [StmtExec (args v), Log (InsertFailed (V (fsno v)) err)])
           | Inr t' \<Rightarrow>
               transfer cv db stmt rest (totalRows + 1) t' (tr @ [StmtExec (args v)])))"

text \<open>The deferred calls, which run when \<^verbatim>\<open>runETL\<close> returns, last deferred first.\<close>

definition tx_Rollback :: "tx \<Rightarrow> event list" where
  "tx_Rollback t = (if tx_done t then [] else [TxRollback])"

definition runETL :: "converter \<Rightarrow> ('o::linorder) sourceDB \<Rightarrow> targetDB \<Rightarrow> outcome" where
  "runETL cv sourceDB targetDB =
     (case Query sourceDB query of
        Inl err \<Rightarrow>
          \<lparr>ret_count = 0, ret_err = Some (Errorf ''failed to query source data'' err),
           target = targetDB, trace = [SrcQuery]\<rparr>
      | Inr rows \<Rightarrow>
          (case Begin targetDB of
             Inl err \<Rightarrow>
               \<lparr>ret_count = 0,
                ret_err = Some (Errorf ''failed to start target transaction'' err),
                target = targetDB, trace = [SrcQuery, TgtBegin, RowsClose]\<rparr>
           | Inr t0 \<Rightarrow>
               (case Prepare targetDB insertSQL of
                  Inl err \<Rightarrow>
                    \<lparr>ret_count = 0,
                     ret_err = Some (Errorf ''failed to prepare insert statement'' err),
                     target = targetDB,
                     trace = [SrcQuery, TgtBegin, TxPrepare] @ tx_Rollback t0 @ [RowsClose]\<rparr>
                | Inr stmt \<Rightarrow>
                    (case transfer cv targetDB stmt (cursor rows) 0 t0
                            [SrcQuery, TgtBegin, TxPrepare, Log StartingTransfer] of
                       (totalRows, Some err, t, tr) \<Rightarrow>
                         \<lparr>ret_count = totalRows, ret_err = Some err, target = targetDB,
                          trace = tr @ [StmtClose] @ tx_Rollback t @ [RowsClose]\<rparr>
                     | (totalRows, None, t, tr) \<Rightarrow>
                         (case Err rows of
                            Some err \<Rightarrow>
                              \<lparr>ret_count = totalRows,
                               ret_err = Some (Errorf ''error iterating over source rows'' err),
                               target = targetDB,
                               trace = tr @ [StmtClose] @ tx_Rollback t @ [RowsClose]\<rparr>
                          | None \<Rightarrow>
                              (case Commit targetDB t of
                                 Inl err \<Rightarrow>
                                   \<lparr>ret_count = totalRows,
                                    ret_err = Some (Errorf ''failed to commit transaction'' err),
                                    target = targetDB,
                                    trace = tr @ [TxCommit, StmtClose]
                                            @ tx_Rollback (t\<lparr>tx_done := True\<rparr>) @ [RowsClose]\<rparr>
                               | Inr db' \<Rightarrow>
                                   \<lparr>ret_count = totalRows, ret_err = None, target = db',
                                    trace = tr @ [TxCommit, StmtClose]
                                            @ tx_Rollback (t\<lparr>tx_done := True\<rparr>) @ [RowsClose]\<rparr>))))))"

section \<open>Observations on a run\<close>

text \<open>
  The rows of a cursor that \<^verbatim>\<open>rows.Scan\<close> decodes, as the variables they are decoded into,
  and the rows that it does not decode.
\<close>

fun decoded :: "converter \<Rightarrow> dvalue list list \<Rightarrow> vars list" where
  "decoded cv [] = []"
| "decoded cv (cols # rest) =
     (case Scan cv cols of Inl err \<Rightarrow> decoded cv rest | Inr v \<Rightarrow> v # decoded cv rest)"

definition undecodable :: "converter \<Rightarrow> dvalue list list \<Rightarrow> dvalue list list" where
  "undecodable cv rows = filter (\<lambda>cols. isl (Scan cv cols)) rows"

text \<open>
  No insert of the given rows meets a hard error, the first of them being statement
  number \<open>i\<close> of its transaction.
\<close>

fun no_hard_error :: "targetDB \<Rightarrow> insert_stmt \<Rightarrow> nat \<Rightarrow> vars list \<Rightarrow> bool" where
  "no_hard_error db stmt i [] = True"
| "no_hard_error db stmt i (v # vs) =
     (hard_error db stmt i (args v) = None \<and> no_hard_error db stmt (Suc i) vs)"

text \<open>
  The events of the loop, the argument lists of the \<^verbatim>\<open>Exec\<close> calls of a trace and its
  warnings about skipped rows.
\<close>

fun loop_event :: "event \<Rightarrow> bool" where
  "loop_event (StmtExec as) = True"
| "loop_event (Log l) = True"
| "loop_event ev = False"

fun execs :: "event list \<Rightarrow> dvalue list list" where
  "execs [] = []"
| "execs (StmtExec as # evs) = as # execs evs"
| "execs (ev # evs) = execs evs"

fun skip_warnings :: "event list \<Rightarrow> (nat \<times> error) list" where
  "skip_warnings [] = []"
| "skip_warnings (Log (ScanSkip n e) # evs) = (n, e) # skip_warnings evs"
| "skip_warnings (ev # evs) = skip_warnings evs"

text \<open>The key by which the server sorts a stored row under a query.\<close>

definition sort_key_of :: "'o sourceDB \<Rightarrow> select_query \<Rightarrow> named_row \<Rightarrow> 'o option" where
  "sort_key_of db q r = map_option (collation db) (map_of r (order_by q))"

text \<open>
  A source column is carried to a target column through a variable of the loop: the
  variable holds what its \<^verbatim>\<open>Scan\<close> makes of the source column, and the target column of
  the written row holds the \<^verbatim>\<open>Value\<close> of the variable.
\<close>

definition carried ::
  "named_row \<Rightarrow> string \<Rightarrow> (dvalue \<Rightarrow> error + 'a Null) \<Rightarrow> 'a Null \<Rightarrow> ('a Null \<Rightarrow> dvalue)
     \<Rightarrow> string \<Rightarrow> named_row \<Rightarrow> bool" where
  "carried r src scan h val tgt row =
     ((case map_of r src of None \<Rightarrow> False | Some c \<Rightarrow> scan c = Inr h)
      \<and> map_of row tgt = Some (val h))"

section \<open>Example stores\<close>

text \<open>
  A converter that accepts a value of the destination's own kind only, a source row with
  a given \<^verbatim>\<open>fsno\<close> and \<^verbatim>\<open>netpay\<close>, a source store with given rows under a binary
  collation that sorts NULL first, and an empty target store that answers an insert whose
  \<^verbatim>\<open>net_pay\<close> is \<open>10^10\<close> with a numeric overflow.
\<close>

definition ex_cv :: converter where
  "ex_cv =
     \<lparr>to_string = (\<lambda>x. case x of DString s \<Rightarrow> Inr s
                              | _ \<Rightarrow> Inl (DriverError ''unsupported Scan (string)'')),
      to_Time = (\<lambda>x. case x of DTime t \<Rightarrow> Inr t
                            | _ \<Rightarrow> Inl (DriverError ''unsupported Scan (Time)'')),
      to_float64 = (\<lambda>x. case x of DFloat f \<Rightarrow> Inr f
                               | _ \<Rightarrow> Inl (DriverError ''unsupported Scan (float64)''))\<rparr>"

definition ex_cols :: "dvalue \<Rightarrow> dvalue \<Rightarrow> dvalue list" where
  "ex_cols k np =
     [k, DString ''cash'', DNull, DString ''ACME'', DNull, DTime 1700000000, DString ''P1'',
      DString ''Widget'', DString ''pcs'', DNull, DFloat 0x4000000000000000, np]"

definition ex_row :: "dvalue \<Rightarrow> dvalue \<Rightarrow> named_row" where
  "ex_row k np = zip (select_list query) (ex_cols k np)"

text \<open>The variables into which the example row decodes when its key is a string.\<close>

definition ex_vars :: "string \<Rightarrow> NullFloat64 \<Rightarrow> vars" where
  "ex_vars k np =
     \<lparr>fsno = \<lparr>V = k, Valid = True\<rparr>,
      salestype = \<lparr>V = ''cash'', Valid = True\<rparr>,
      attachmentno = \<lparr>V = [], Valid = False\<rparr>,
      customer = \<lparr>V = ''ACME'', Valid = True\<rparr>,
      region = \<lparr>V = [], Valid = False\<rparr>,
      date = \<lparr>V = 1700000000, Valid = True\<rparr>,
      code = \<lparr>V = ''P1'', Valid = True\<rparr>,
      name = \<lparr>V = ''Widget'', Valid = True\<rparr>,
      measurementunit = \<lparr>V = ''pcs'', Valid = True\<rparr>,
      unitprice = \<lparr>V = 0, Valid = False\<rparr>,
      soldquantity = \<lparr>V = 0x4000000000000000, Valid = True\<rparr>,
      netpay = np\<rparr>"

definition ex_source :: "named_row list \<Rightarrow> (string option) sourceDB" where
  "ex_source rs =
     \<lparr>tables = [(''Sales'', rs)],
      collation = (\<lambda>x. case x of DString s \<Rightarrow> Some s | _ \<Rightarrow> None),
      query_err = None,
      stream_err = None\<rparr>"

definition ex_target :: targetDB where
  "ex_target =
     \<lparr>SalesDB = [],
      begin_err = None,
      prepare_err = None,
      exec_err = (\<lambda>i as. if 11 < length as \<and> as ! 11 = DFloat 0x4202A05F20000000
                           then Some (DriverError ''pq: numeric field overflow'') else None),
      commit_err = None\<rparr>"

text \<open>
  Source rows in storage order. In \<open>ex_sales_hard\<close> the row \<^verbatim>\<open>A0\<close> does not decode and the
  insert of \<^verbatim>\<open>A4\<close> overflows; in \<open>ex_sales_skip\<close> the row \<^verbatim>\<open>A1\<close> does not decode.
  In \<open>ex_sales_b1\<close> the insert of the only row overflows.
  \<open>ex_loaded\<close> is the target store that already holds the two rows of \<open>ex_sales_skip\<close>
  that decode.
\<close>

definition ex_sales_hard :: "named_row list" where
  "ex_sales_hard =
     [ex_row (DString ''A2'') DNull,
      ex_row (DString ''A0'') (DString ''n/a''),
      ex_row (DString ''A4'') (DFloat 0x4202A05F20000000),
      ex_row (DString ''A1'') (DFloat 0x4059200000000000),
      ex_row (DString ''A5'') (DFloat 0x4014000000000000)]"

definition ex_sales_skip :: "named_row list" where
  "ex_sales_skip =
     [ex_row (DString ''A3'') (DFloat 0x4059200000000000),
      ex_row (DString ''A1'') (DString ''n/a''),
      ex_row (DString ''A2'') DNull]"

definition ex_sales_b1 :: "named_row list" where
  "ex_sales_b1 = [ex_row (DString ''B1'') (DFloat 0x4202A05F20000000)]"

text \<open>Two rows with the same \<^verbatim>\<open>fsno\<close> and different \<^verbatim>\<open>netpay\<close>.\<close>

definition ex_sales_tie :: "named_row list" where
  "ex_sales_tie =
     [ex_row (DString ''A1'') DNull,
      ex_row (DString ''A1'') (DFloat 0x4059200000000000)]"

text \<open>A row whose \<^verbatim>\<open>fsno\<close> is NULL, and the variables into which it decodes.\<close>

definition ex_vars_null_key :: "NullFloat64 \<Rightarrow> vars" where
  "ex_vars_null_key np = (ex_vars [] np)\<lparr>fsno := \<lparr>V = [], Valid = False\<rparr>\<rparr>"

definition ex_sales_null_key :: "named_row list" where
  "ex_sales_null_key = [ex_row DNull (DFloat 0x4059200000000000)]"

definition ex_loaded :: targetDB where
  "ex_loaded =
     ex_target\<lparr>SalesDB :=
       [new_row insertSQL (args (ex_vars ''A2'' \<lparr>V = 0, Valid = False\<rparr>)),
        new_row insertSQL (args (ex_vars ''A3'' \<lparr>V = 0x4059200000000000, Valid = True\<rparr>))]\<rparr>"


section \<open>The statement, the insert and the loop\<close>

lemma length_args: "length (args v) = 12"
  by (simp add: args_def)

lemma new_row_args: "new_row insertSQL (args v) = zip (into_columns insertSQL) (args v)"
  by (simp add: new_row_def insertSQL_def args_def)

lemma key_of_new_row:
  "key_of insertSQL (new_row insertSQL (args v)) = Some (NullString_Value (fsno v))"
  by (simp add: key_of_def new_row_def insertSQL_def args_def)

lemma stmt_Exec_Inl:
  "stmt_Exec db stmt t as = Inl e \<longleftrightarrow> hard_error db stmt (nexec t) as = Some e"
  by (simp add: stmt_Exec_def split: option.splits)

lemma stmt_Exec_Inr:
  "stmt_Exec db stmt t as = Inr t' \<longleftrightarrow>
     hard_error db stmt (nexec t) as = None \<and>
     t' = t\<lparr>pending := insert_on_conflict_do_nothing stmt (pending t) as, nexec := Suc (nexec t)\<rparr>"
  by (auto simp add: stmt_Exec_def split: option.splits)

lemma execs_append: "execs (xs @ ys) = execs xs @ execs ys"
  by (induction xs rule: execs.induct) simp_all

lemma skip_warnings_append: "skip_warnings (xs @ ys) = skip_warnings xs @ skip_warnings ys"
  by (induction xs rule: skip_warnings.induct) simp_all

lemma length_decoded_undecodable:
  "length (decoded cv rows) + length (undecodable cv rows) = length rows"
  by (induction rows) (auto simp: undecodable_def split: sum.splits)

lemma transfer_abort:
  "decoded cv rows = pre @ v # post \<Longrightarrow>
   no_hard_error db stmt (nexec t) pre \<Longrightarrow>
   hard_error db stmt (nexec t + length pre) (args v) = Some e \<Longrightarrow>
   \<exists>t' ys. transfer cv db stmt rows n t tr =
             (n + length pre, Some (Errorf ''error executing insert statement'' e), t',
              tr @ ys @ [StmtExec (args v), Log (InsertFailed (V (fsno v)) e)])
           \<and> tx_done t' = tx_done t \<and> list_all loop_event ys"
proof (induction rows arbitrary: n t tr pre)
  case Nil
  then show ?case by simp
next
  case (Cons cols rest)
  show ?case
  proof (cases "Scan cv cols")
    case (Inl err)
    with Cons.prems have "decoded cv rest = pre @ v # post" by simp
    from Cons.IH[OF this Cons.prems(2,3), of n "tr @ [Log (ScanSkip (n + 1) err)]"]
    obtain t' ys where "transfer cv db stmt rest n t (tr @ [Log (ScanSkip (n + 1) err)]) =
             (n + length pre, Some (Errorf ''error executing insert statement'' e), t',
              (tr @ [Log (ScanSkip (n + 1) err)]) @ ys @ [StmtExec (args v), Log (InsertFailed (V (fsno v)) e)])"
       "tx_done t' = tx_done t" "list_all loop_event ys" by blast
    then show ?thesis using Inl
      by (intro exI[of _ t'] exI[of _ "Log (ScanSkip (n + 1) err) # ys"]) simp
  next
    case (Inr v0)
    show ?thesis
    proof (cases pre)
      case Nil
      with Cons.prems Inr have v0: "v0 = v" by simp
      from Cons.prems(3) Nil have "stmt_Exec db stmt t (args v) = Inl e"
        by (simp add: stmt_Exec_Inl)
      then show ?thesis using Inr v0 Nil
        by (intro exI[of _ t] exI[of _ "[]"]) simp
    next
      case (Cons p pre')
      with Cons.prems Inr have v0: "v0 = p" and dec: "decoded cv rest = pre' @ v # post" by simp_all
      from Cons.prems(2) Cons have hp: "hard_error db stmt (nexec t) (args p) = None"
        and rest: "no_hard_error db stmt (Suc (nexec t)) pre'" by simp_all
      define t1 where "t1 = t\<lparr>pending := insert_on_conflict_do_nothing stmt (pending t) (args p), nexec := Suc (nexec t)\<rparr>"
      have ex: "stmt_Exec db stmt t (args p) = Inr t1"
        using hp by (simp add: stmt_Exec_Inr t1_def)
      have n1: "nexec t1 = Suc (nexec t)" "tx_done t1 = tx_done t" by (simp_all add: t1_def)
      have h2: "no_hard_error db stmt (nexec t1) pre'" using rest n1 by simp
      have h3: "hard_error db stmt (nexec t1 + length pre') (args v) = Some e"
        using Cons.prems(3) n1 Cons by simp
      from Cons.IH[OF dec h2 h3, of "n + 1" "tr @ [StmtExec (args p)]"]
      obtain t' ys where "transfer cv db stmt rest (n + 1) t1 (tr @ [StmtExec (args p)]) =
             (n + 1 + length pre', Some (Errorf ''error executing insert statement'' e), t',
              (tr @ [StmtExec (args p)]) @ ys @ [StmtExec (args v), Log (InsertFailed (V (fsno v)) e)])"
       "tx_done t' = tx_done t1" "list_all loop_event ys" by blast
      then show ?thesis using Inr v0 ex Cons n1
        by (intro exI[of _ t'] exI[of _ "StmtExec (args p) # ys"]) simp
    qed
  qed
qed

lemma transfer_complete:
  "no_hard_error db stmt (nexec t) (decoded cv rows) \<Longrightarrow>
   \<exists>ys. transfer cv db stmt rows n t tr =
          (n + length (decoded cv rows), None,
           t\<lparr>pending := foldl (insert_on_conflict_do_nothing stmt) (pending t)
                           (map args (decoded cv rows)),
             nexec := nexec t + length (decoded cv rows)\<rparr>,
           tr @ ys)
        \<and> list_all loop_event ys
        \<and> execs ys = map args (decoded cv rows)
        \<and> length (skip_warnings ys) = length (undecodable cv rows)"
proof (induction rows arbitrary: n t tr)
  case Nil
  then show ?case by (simp add: undecodable_def)
next
  case (Cons cols rest)
  show ?case
  proof (cases "Scan cv cols")
    case (Inl err)
    with Cons.prems have "no_hard_error db stmt (nexec t) (decoded cv rest)" by simp
    from Cons.IH[OF this, of n "tr @ [Log (ScanSkip (n + 1) err)]"]
    obtain ys where "transfer cv db stmt rest n t (tr @ [Log (ScanSkip (n + 1) err)]) =
          (n + length (decoded cv rest), None,
           t\<lparr>pending := foldl (insert_on_conflict_do_nothing stmt) (pending t)
                           (map args (decoded cv rest)),
             nexec := nexec t + length (decoded cv rest)\<rparr>,
           (tr @ [Log (ScanSkip (n + 1) err)]) @ ys)"
      "list_all loop_event ys" "execs ys = map args (decoded cv rest)"
      "length (skip_warnings ys) = length (undecodable cv rest)" by blast
    then show ?thesis using Inl
      by (intro exI[of _ "Log (ScanSkip (n + 1) err) # ys"]) (simp add: undecodable_def)
  next
    case (Inr v)
    with Cons.prems have hp: "hard_error db stmt (nexec t) (args v) = None"
      and rest: "no_hard_error db stmt (Suc (nexec t)) (decoded cv rest)" by simp_all
    define t1 where "t1 = t\<lparr>pending := insert_on_conflict_do_nothing stmt (pending t) (args v), nexec := Suc (nexec t)\<rparr>"
    have ex: "stmt_Exec db stmt t (args v) = Inr t1"
      using hp by (simp add: stmt_Exec_Inr t1_def)
    have "no_hard_error db stmt (nexec t1) (decoded cv rest)" using rest by (simp add: t1_def)
    from Cons.IH[OF this, of "n + 1" "tr @ [StmtExec (args v)]"]
    obtain ys where "transfer cv db stmt rest (n + 1) t1 (tr @ [StmtExec (args v)]) =
          (n + 1 + length (decoded cv rest), None,
           t1\<lparr>pending := foldl (insert_on_conflict_do_nothing stmt) (pending t1)
                           (map args (decoded cv rest)),
             nexec := nexec t1 + length (decoded cv rest)\<rparr>,
           (tr @ [StmtExec (args v)]) @ ys)"
      "list_all loop_event ys" "execs ys = map args (decoded cv rest)"
      "length (skip_warnings ys) = length (undecodable cv rest)" by blast
    then show ?thesis using Inr ex
      by (intro exI[of _ "StmtExec (args v) # ys"]) (simp add: undecodable_def t1_def)
  qed
qed

lemma transfer_None_D:
  "transfer cv db stmt rows n t tr = (n', None, t', tr') \<Longrightarrow>
   no_hard_error db stmt (nexec t) (decoded cv rows)"
proof (induction rows arbitrary: n t tr)
  case Nil
  then show ?case by simp
next
  case (Cons cols rest)
  show ?case
  proof (cases "Scan cv cols")
    case (Inl err)
    with Cons show ?thesis by simp
  next
    case (Inr v)
    show ?thesis
    proof (cases "stmt_Exec db stmt t (args v)")
      case (Inl e)
      with Cons.prems Inr show ?thesis by simp
    next
      case (Inr t1)
      then have "hard_error db stmt (nexec t) (args v) = None" "nexec t1 = Suc (nexec t)"
        by (simp_all add: stmt_Exec_Inr)
      moreover from Cons.prems \<open>Scan cv cols = Inr v\<close> Inr
      have "transfer cv db stmt rest (n + 1) t1 (tr @ [StmtExec (args v)]) = (n', None, t', tr')" by simp
      from Cons.IH[OF this] have "no_hard_error db stmt (nexec t1) (decoded cv rest)" .
      ultimately show ?thesis using \<open>Scan cv cols = Inr v\<close> by simp
    qed
  qed
qed

section \<open>Decoding and binding one row\<close>

lemma Null_Scan_null_iff:
  "Null_Scan z conv c = Inr h \<Longrightarrow> Valid h = (c \<noteq> DNull)"
  by (auto simp: Null_Scan_def split: if_splits sum.splits)

lemma NullString_roundtrip:
  "NullString_Scan cv c = Inr h \<Longrightarrow> (NullString_Value h = DNull) = (c = DNull)"
  by (auto simp: NullString_Scan_def NullString_Value_def Null_Value_def dest: Null_Scan_null_iff)

lemma NullTime_roundtrip:
  "NullTime_Scan cv c = Inr h \<Longrightarrow> (NullTime_Value h = DNull) = (c = DNull)"
  by (auto simp: NullTime_Scan_def NullTime_Value_def Null_Value_def dest: Null_Scan_null_iff)

lemma NullFloat64_roundtrip:
  "NullFloat64_Scan cv c = Inr h \<Longrightarrow> (NullFloat64_Value h = DNull) = (c = DNull)"
  by (auto simp: NullFloat64_Scan_def NullFloat64_Value_def Null_Value_def dest: Null_Scan_null_iff)

lemma scan_col_Inr: "scan_col i r k = Inr y \<longleftrightarrow> (\<exists>x. r = Inr x \<and> k x = Inr y)"
  by (cases r) (simp_all add: scan_col_def)

lemma Scan_Inr_D:
  assumes "Scan cv cols = Inr v"
  shows "cols = [cols ! 0, cols ! 1, cols ! 2, cols ! 3, cols ! 4, cols ! 5, cols ! 6,
                 cols ! 7, cols ! 8, cols ! 9, cols ! 10, cols ! 11]
       \<and> NullString_Scan cv (cols ! 0) = Inr (fsno v)
       \<and> NullString_Scan cv (cols ! 1) = Inr (salestype v)
       \<and> NullString_Scan cv (cols ! 2) = Inr (attachmentno v)
       \<and> NullString_Scan cv (cols ! 3) = Inr (customer v)
       \<and> NullString_Scan cv (cols ! 4) = Inr (region v)
       \<and> NullTime_Scan cv (cols ! 5) = Inr (date v)
       \<and> NullString_Scan cv (cols ! 6) = Inr (code v)
       \<and> NullString_Scan cv (cols ! 7) = Inr (name v)
       \<and> NullString_Scan cv (cols ! 8) = Inr (measurementunit v)
       \<and> NullFloat64_Scan cv (cols ! 9) = Inr (unitprice v)
       \<and> NullFloat64_Scan cv (cols ! 10) = Inr (soldquantity v)
       \<and> NullFloat64_Scan cv (cols ! 11) = Inr (netpay v)"
proof -
  from assms obtain c0 c1 c2 c3 c4 c5 c6 c7 c8 c9 c10 c11
    where c: "cols = [c0, c1, c2, c3, c4, c5, c6, c7, c8, c9, c10, c11]"
    by (auto simp: Scan_def split: list.splits)
  from assms show ?thesis unfolding c
    by (auto simp: Scan_def scan_col_Inr)
qed


lemma Scan_Inr_E:
  assumes "Scan cv cols = Inr v"
  obtains c0 c1 c2 c3 c4 c5 c6 c7 c8 c9 c10 c11
  where "cols = [c0, c1, c2, c3, c4, c5, c6, c7, c8, c9, c10, c11]"
    and "NullString_Scan cv c0 = Inr (fsno v)"
    and "NullString_Scan cv c1 = Inr (salestype v)"
    and "NullString_Scan cv c2 = Inr (attachmentno v)"
    and "NullString_Scan cv c3 = Inr (customer v)"
    and "NullString_Scan cv c4 = Inr (region v)"
    and "NullTime_Scan cv c5 = Inr (date v)"
    and "NullString_Scan cv c6 = Inr (code v)"
    and "NullString_Scan cv c7 = Inr (name v)"
    and "NullString_Scan cv c8 = Inr (measurementunit v)"
    and "NullFloat64_Scan cv c9 = Inr (unitprice v)"
    and "NullFloat64_Scan cv c10 = Inr (soldquantity v)"
    and "NullFloat64_Scan cv c11 = Inr (netpay v)"
  using Scan_Inr_D[OF assms] by metis

lemma Scan_null_pattern:
  assumes "Scan cv cols = Inr v"
  shows "map (\<lambda>x. x = DNull) (args v) = map (\<lambda>x. x = DNull) cols"
    and "[Valid (fsno v), Valid (salestype v), Valid (attachmentno v), Valid (customer v),
          Valid (region v), Valid (date v), Valid (code v), Valid (name v),
          Valid (measurementunit v), Valid (unitprice v), Valid (soldquantity v),
          Valid (netpay v)] = map (\<lambda>x. x \<noteq> DNull) cols"
proof -
  from assms obtain c0 c1 c2 c3 c4 c5 c6 c7 c8 c9 c10 c11
  where c: "cols = [c0, c1, c2, c3, c4, c5, c6, c7, c8, c9, c10, c11]"
    and s: "NullString_Scan cv c0 = Inr (fsno v)"
     "NullString_Scan cv c1 = Inr (salestype v)"
     "NullString_Scan cv c2 = Inr (attachmentno v)"
     "NullString_Scan cv c3 = Inr (customer v)"
     "NullString_Scan cv c4 = Inr (region v)"
     "NullTime_Scan cv c5 = Inr (date v)"
     "NullString_Scan cv c6 = Inr (code v)"
     "NullString_Scan cv c7 = Inr (name v)"
     "NullString_Scan cv c8 = Inr (measurementunit v)"
     "NullFloat64_Scan cv c9 = Inr (unitprice v)"
     "NullFloat64_Scan cv c10 = Inr (soldquantity v)"
     "NullFloat64_Scan cv c11 = Inr (netpay v)"
    by (rule Scan_Inr_E)
  show "map (\<lambda>x. x = DNull) (args v) = map (\<lambda>x. x = DNull) cols"
    unfolding c args_def
    using s by (simp add: NullString_roundtrip NullTime_roundtrip NullFloat64_roundtrip)
  show "[Valid (fsno v), Valid (salestype v), Valid (attachmentno v), Valid (customer v),
          Valid (region v), Valid (date v), Valid (code v), Valid (name v),
          Valid (measurementunit v), Valid (unitprice v), Valid (soldquantity v),
          Valid (netpay v)] = map (\<lambda>x. x \<noteq> DNull) cols"
    unfolding c
    using s by (simp add: NullString_Scan_def NullTime_Scan_def NullFloat64_Scan_def Null_Scan_null_iff)
qed

lemma scan_col_Inl:
  "scan_col i (Null_Scan z conv c) k = Inl e \<Longrightarrow>
     (c \<noteq> DNull \<and> (\<exists>e'. e = ScanError i e')) \<or> (\<exists>h. k h = Inl e)"
  by (auto simp: scan_col_def Null_Scan_def split: sum.splits if_splits)

lemma Scan_Inl_D:
  assumes "Scan cv cols = Inl e"
  shows "length cols \<noteq> 12 \<or> (\<exists>i<12. cols ! i \<noteq> DNull \<and> (\<exists>e'. e = ScanError i e'))"
proof (cases "length cols = 12")
  case False
  then show ?thesis by simp
next
  case True
  then obtain c0 c1 c2 c3 c4 c5 c6 c7 c8 c9 c10 c11
    where c: "cols = [c0, c1, c2, c3, c4, c5, c6, c7, c8, c9, c10, c11]"
    by (auto simp: length_Suc_conv eval_nat_numeral)
  from assms have "(\<exists>i<12. cols ! i \<noteq> DNull \<and> (\<exists>e'. e = ScanError i e'))"
    unfolding c Scan_def NullString_Scan_def NullTime_Scan_def NullFloat64_Scan_def list.case
    by (auto dest!: scan_col_Inl)
  then show ?thesis by simp
qed

lemma those_Some_iff: "those xs = Some ys \<longleftrightarrow> xs = map Some ys"
  by (induction xs arbitrary: ys) (auto split: option.splits)

lemma eval_row_query_D:
  assumes "eval_row query r = Some (k, [c0, c1, c2, c3, c4, c5, c6, c7, c8, c9, c10, c11])"
  shows "map_of r ''fsno'' = Some c0 \<and> map_of r ''salestype'' = Some c1
       \<and> map_of r ''attachmentno'' = Some c2 \<and> map_of r ''customer'' = Some c3
       \<and> map_of r ''region'' = Some c4 \<and> map_of r ''date'' = Some c5
       \<and> map_of r ''code'' = Some c6 \<and> map_of r ''name'' = Some c7
       \<and> map_of r ''measurementunit'' = Some c8 \<and> map_of r ''unitprice'' = Some c9
       \<and> map_of r ''soldquantity'' = Some c10 \<and> map_of r ''netpay'' = Some c11
       \<and> k = c0"
  using assms
  by (auto simp: eval_row_def query_def those_Some_iff split: option.splits)

lemma new_row_columns:
  "new_row insertSQL (args v) =
     [(''fsno'', NullString_Value (fsno v)), (''salestype'', NullString_Value (salestype v)),
      (''attachmentno'', NullString_Value (attachmentno v)),
      (''customer'', NullString_Value (customer v)), (''region'', NullString_Value (region v)),
      (''sale_date'', NullTime_Value (date v)), (''code'', NullString_Value (code v)),
      (''item_name'', NullString_Value (name v)),
      (''measurement_unit'', NullString_Value (measurementunit v)),
      (''unit_price'', NullFloat64_Value (unitprice v)),
      (''sold_quantity'', NullFloat64_Value (soldquantity v)),
      (''net_pay'', NullFloat64_Value (netpay v))]"
  by (simp add: new_row_def insertSQL_def args_def)

lemma hard_error_null_key:
  "\<not> Valid (fsno v) \<Longrightarrow> hard_error db insertSQL i (args v) \<noteq> None"
  using key_of_new_row[of v]
  by (simp add: hard_error_def length_args key_of_def NullString_Value_def Null_Value_def
      insertSQL_def createTableSQL_def split: option.splits)

lemma Scan_null_key:
  assumes "Scan cv cols = Inr v" and "cols ! 0 = DNull"
  shows "\<not> Valid (fsno v)"
proof -
  from assms(1) obtain c0 c1 c2 c3 c4 c5 c6 c7 c8 c9 c10 c11
    where "cols = [c0, c1, c2, c3, c4, c5, c6, c7, c8, c9, c10, c11]"
      and "NullString_Scan cv c0 = Inr (fsno v)"
    by (rule Scan_Inr_E)
  with assms(2) have "NullString_Scan cv DNull = Inr (fsno v)" by simp
  then show ?thesis
    by (auto simp add: NullString_Scan_def dest: Null_Scan_null_iff)
qed

section \<open>Sorting by a key\<close>

lemma filter_distinct_key:
  "distinct (map f xs) \<Longrightarrow> k \<in> set xs \<Longrightarrow> filter (\<lambda>x. f k = f x) xs = [k]"
proof (induction xs)
  case Nil
  then show ?case by simp
next
  case (Cons a xs)
  show ?case
  proof (cases "k = a")
    case True
    with Cons.prems have "\<forall>x\<in>set xs. f a \<noteq> f x" by auto
    then have "filter (\<lambda>x. f a = f x) xs = []" by (simp add: filter_empty_conv)
    with True show ?thesis by simp
  next
    case False
    with Cons.prems have k: "k \<in> set xs" and d: "distinct (map f xs)" and "f a \<noteq> f k"
      by auto
    with Cons.IH[OF d k] show ?thesis by simp
  qed
qed

lemma sort_key_unique:
  fixes f :: "'a \<Rightarrow> 'k::linorder"
  assumes "mset xs = mset ys" and "distinct (map f xs)"
  shows "sort_key f xs = sort_key f ys"
proof (rule properties_for_sort_key)
  show "mset (sort_key f ys) = mset xs" using assms(1) by simp
  show "sorted (map f (sort_key f ys))" by (rule sorted_sort_key)
  fix k assume ky: "k \<in> set (sort_key f ys)"
  have "set xs = set ys" using assms(1) by (rule mset_eq_setD)
  with ky have kx: "k \<in> set xs" by simp
  have "mset (map f (sort_key f ys)) = mset (map f xs)" using assms(1) by simp
  from mset_eq_imp_distinct_iff[OF this] assms(2)
  have d: "distinct (map f (sort_key f ys))" by simp
  have "filter (\<lambda>x. f k = f x) (sort_key f ys) = [k]"
    using d ky by (rule filter_distinct_key)
  moreover have "filter (\<lambda>x. f k = f x) xs = [k]"
    using assms(2) kx by (rule filter_distinct_key)
  ultimately show "filter (\<lambda>x. f k = f x) (sort_key f ys) = filter (\<lambda>x. f k = f x) xs" by simp
qed

lemma sort_key_keys:
  fixes f :: "'a \<Rightarrow> 'k::linorder"
  assumes "mset xs = mset ys"
  shows "map f (sort_key f xs) = map f (sort_key f ys)"
proof -
  have "sort (map f xs) = map f (sort_key f ys)"
  proof (rule properties_for_sort)
    show "mset (map f (sort_key f ys)) = mset (map f xs)" using assms by simp
    show "sorted (map f (sort_key f ys))" by (rule sorted_sort_key)
  qed
  moreover have "sort (map f xs) = map f (sort_key f xs)"
  proof (rule properties_for_sort)
    show "mset (map f (sort_key f xs)) = mset (map f xs)" by simp
    show "sorted (map f (sort_key f xs))" by (rule sorted_sort_key)
  qed
  ultimately show ?thesis by simp
qed

lemma those_map_mset:
  assumes "those (map f xs) = Some ys" and "mset xs = mset xs'"
  shows "\<exists>ys'. those (map f xs') = Some ys' \<and> mset ys' = mset ys"
proof -
  from assms(1) have m: "map f xs = map Some ys" by (simp add: those_Some_iff)
  have sx: "set xs' = set xs" using assms(2) by (metis mset_eq_setD)
  have some: "f x = Some (the (f x))" if "x \<in> set xs'" for x
  proof -
    from that sx have "f x \<in> set (map f xs)" by simp
    then obtain y where "f x = Some y" unfolding m by auto
    then show ?thesis by simp
  qed
  have m': "map f xs' = map Some (map (\<lambda>x. the (f x)) xs')"
    using some by (induction xs') simp_all
  have "map (\<lambda>x. the (f x)) xs = map the (map f xs)" by simp
  also have "\<dots> = ys" unfolding m by (simp add: comp_def)
  finally have y: "map (\<lambda>x. the (f x)) xs = ys" .
  have "mset (map (\<lambda>x. the (f x)) xs') = mset (map (\<lambda>x. the (f x)) xs)"
    using assms(2) by simp
  with y have "mset (map (\<lambda>x. the (f x)) xs') = mset ys" by simp
  moreover have "those (map f xs') = Some (map (\<lambda>x. the (f x)) xs')"
    using m' by (simp add: those_Some_iff)
  ultimately show ?thesis by blast
qed

lemma eval_row_query_key:
  assumes "eval_row query r = Some (k, vs)"
  shows "map_of r (order_by query) = Some k" and "hd vs = k"
proof -
  from assms show k: "map_of r (order_by query) = Some k"
    by (auto simp: eval_row_def split: option.splits)
  from assms have "those (map (map_of r) (select_list query)) = Some vs"
    by (auto simp: eval_row_def split: option.splits)
  then have "map (map_of r) (select_list query) = map Some vs" by (simp add: those_Some_iff)
  then have "map_of r ''fsno'' = Some (hd vs)"
    by (cases vs) (auto simp: query_def)
  with k show "hd vs = k" by (simp add: query_def)
qed

lemma eval_rows_keys:
  "map (eval_row query) t = map Some kvs \<Longrightarrow>
   map (sort_key_of s query) t = map (\<lambda>kv. Some (collation s (fst kv))) kvs
   \<and> (\<forall>kv\<in>set kvs. hd (snd kv) = fst kv)"
proof (induction t arbitrary: kvs)
  case Nil
  then show ?case by simp
next
  case (Cons r t)
  then obtain kv kvs' where kvs: "kvs = kv # kvs'" and r: "eval_row query r = Some kv"
    and t: "map (eval_row query) t = map Some kvs'" by (cases kvs) auto
  from r have "eval_row query r = Some (fst kv, snd kv)" by simp
  from eval_row_query_key[OF this]
  have "sort_key_of s query r = Some (collation s (fst kv))" "hd (snd kv) = fst kv"
    by (simp_all add: sort_key_of_def)
  with Cons.IH[OF t] kvs show ?case by simp
qed

lemma Query_Inr_D:
  assumes "Query db q = Inr r" and "map_of (tables db) (from_table q) = Some t"
  shows "query_err db = None"
    and "\<exists>kvs. those (map (eval_row q) t) = Some kvs \<and>
           r = (case stream_err db of
                  None \<Rightarrow> \<lparr>cursor = map snd (sort_key (\<lambda>kv. collation db (fst kv)) kvs), Err = None\<rparr>
                | Some (n, e) \<Rightarrow>
                    \<lparr>cursor = take n (map snd (sort_key (\<lambda>kv. collation db (fst kv)) kvs)),
                     Err = Some e\<rparr>)"
  using assms by (auto simp: Query_def Let_def split: option.splits)

lemma Query_Inr_I:
  assumes "query_err db = None" and "map_of (tables db) (from_table q) = Some t"
    and "those (map (eval_row q) t) = Some kvs"
  shows "Query db q =
           Inr (case stream_err db of
                  None \<Rightarrow> \<lparr>cursor = map snd (sort_key (\<lambda>kv. collation db (fst kv)) kvs), Err = None\<rparr>
                | Some (n, e) \<Rightarrow>
                    \<lparr>cursor = take n (map snd (sort_key (\<lambda>kv. collation db (fst kv)) kvs)),
                     Err = Some e\<rparr>)"
  using assms by (simp add: Query_def Let_def)

lemma runETL_same_Query:
  "Query s2 query = Query s1 query \<Longrightarrow> runETL cv s2 db = runETL cv s1 db"
  by (simp add: runETL_def)

section \<open>The table under repeated inserts\<close>

lemma keys_insert_mono:
  "key_of stmt ` set tbl \<subseteq> key_of stmt ` set (insert_on_conflict_do_nothing stmt tbl as)"
  by (auto simp: insert_on_conflict_do_nothing_def)

lemma key_in_insert:
  "key_of stmt (new_row stmt as) \<in> key_of stmt ` set (insert_on_conflict_do_nothing stmt tbl as)"
  by (auto simp: insert_on_conflict_do_nothing_def)

lemma keys_foldl_mono:
  "key_of stmt ` set tbl \<subseteq> key_of stmt ` set (foldl (insert_on_conflict_do_nothing stmt) tbl ass)"
proof (induction ass arbitrary: tbl)
  case Nil
  show ?case by simp
next
  case (Cons as ass)
  have "key_of stmt ` set tbl \<subseteq> key_of stmt ` set (insert_on_conflict_do_nothing stmt tbl as)"
    by (rule keys_insert_mono)
  also have "\<dots> \<subseteq> key_of stmt ` set (foldl (insert_on_conflict_do_nothing stmt)
                        (insert_on_conflict_do_nothing stmt tbl as) ass)"
    by (rule Cons.IH)
  finally show ?case by simp
qed

lemma keys_in_foldl:
  "as \<in> set ass \<Longrightarrow>
   key_of stmt (new_row stmt as) \<in> key_of stmt ` set (foldl (insert_on_conflict_do_nothing stmt) tbl ass)"
proof (induction ass arbitrary: tbl)
  case Nil
  then show ?case by simp
next
  case (Cons a ass)
  show ?case
  proof (cases "as = a")
    case True
    have "key_of stmt (new_row stmt a) \<in> key_of stmt ` set (insert_on_conflict_do_nothing stmt tbl a)"
      by (rule key_in_insert)
    with keys_foldl_mono[of stmt "insert_on_conflict_do_nothing stmt tbl a" ass] True
    show ?thesis by auto
  next
    case False
    with Cons.prems have "as \<in> set ass" by simp
    from Cons.IH[OF this] show ?thesis by simp
  qed
qed

lemma foldl_all_conflicts:
  "\<forall>as\<in>set ass. key_of stmt (new_row stmt as) \<in> key_of stmt ` set tbl \<Longrightarrow>
   foldl (insert_on_conflict_do_nothing stmt) tbl ass = tbl"
  by (induction ass) (simp_all add: insert_on_conflict_do_nothing_def)

lemma set_foldl_insert:
  "set (foldl (insert_on_conflict_do_nothing stmt) tbl ass) \<subseteq> set tbl \<union> new_row stmt ` set ass"
proof (induction ass arbitrary: tbl)
  case Nil
  show ?case by simp
next
  case (Cons as ass)
  have "set (insert_on_conflict_do_nothing stmt tbl as) \<subseteq> set tbl \<union> {new_row stmt as}"
    by (auto simp: insert_on_conflict_do_nothing_def)
  with Cons.IH[of "insert_on_conflict_do_nothing stmt tbl as"] show ?case by auto
qed

lemma length_foldl_insert:
  "length (foldl (insert_on_conflict_do_nothing stmt) tbl ass) \<le> length tbl + length ass"
proof (induction ass arbitrary: tbl)
  case Nil
  show ?case by simp
next
  case (Cons as ass)
  have "length (insert_on_conflict_do_nothing stmt tbl as) \<le> Suc (length tbl)"
    by (simp add: insert_on_conflict_do_nothing_def)
  with Cons.IH[of "insert_on_conflict_do_nothing stmt tbl as"] show ?case by simp
qed

lemma decoded_from_cursor:
  "v \<in> set (decoded cv rows) \<Longrightarrow> \<exists>cols\<in>set rows. Scan cv cols = Inr v"
  by (induction rows) (auto split: sum.splits)

lemma no_hard_error_same_exec_err:
  "exec_err db' = exec_err db \<Longrightarrow> no_hard_error db' stmt i vs = no_hard_error db stmt i vs"
  by (induction vs arbitrary: i) (simp_all add: hard_error_def)

lemma set_foldl_mono:
  "set tbl \<subseteq> set (foldl (insert_on_conflict_do_nothing stmt) tbl ass)"
proof (induction ass arbitrary: tbl)
  case Nil
  show ?case by simp
next
  case (Cons as ass)
  have "set tbl \<subseteq> set (insert_on_conflict_do_nothing stmt tbl as)"
    by (auto simp: insert_on_conflict_do_nothing_def)
  with Cons.IH[of "insert_on_conflict_do_nothing stmt tbl as"] show ?case by auto
qed

lemma first_key_is_stored:
  assumes "key_of stmt (new_row stmt a) \<notin> key_of stmt ` set tbl"
    and "\<forall>b\<in>set pre. key_of stmt (new_row stmt b) \<noteq> key_of stmt (new_row stmt a)"
  shows "new_row stmt a \<in> set (foldl (insert_on_conflict_do_nothing stmt) tbl (pre @ a # post))"
proof -
  let ?mid = "foldl (insert_on_conflict_do_nothing stmt) tbl pre"
  have "set ?mid \<subseteq> set tbl \<union> new_row stmt ` set pre" by (rule set_foldl_insert)
  then have "key_of stmt ` set ?mid
               \<subseteq> key_of stmt ` set tbl \<union> (\<lambda>b. key_of stmt (new_row stmt b)) ` set pre"
    by auto
  with assms have "key_of stmt (new_row stmt a) \<notin> key_of stmt ` set ?mid" by auto
  then have "new_row stmt a \<in> set (insert_on_conflict_do_nothing stmt ?mid a)"
    by (simp add: insert_on_conflict_do_nothing_def)
  with set_foldl_mono[of "insert_on_conflict_do_nothing stmt ?mid a" stmt post]
  show ?thesis by auto
qed

section \<open>The run as a whole\<close>

lemma loop_event_not_tx:
  "list_all loop_event ys \<Longrightarrow>
   TxCommit \<notin> set ys \<and> TxRollback \<notin> set ys \<and> TgtBegin \<notin> set ys"
  by (auto simp: list_all_iff)

lemma runETL_abort:
  assumes "Query sourceDB query = Inr rows"
    and "begin_err targetDB = None" and "prepare_err targetDB = None"
    and "decoded cv (cursor rows) = pre @ v # post"
    and "no_hard_error targetDB insertSQL 0 pre"
    and "hard_error targetDB insertSQL (length pre) (args v) = Some e"
  shows "\<exists>ys. list_all loop_event ys \<and>
           runETL cv sourceDB targetDB =
             \<lparr>ret_count = length pre,
              ret_err = Some (Errorf ''error executing insert statement'' e),
              target = targetDB,
              trace = [SrcQuery, TgtBegin, TxPrepare, Log StartingTransfer] @ ys @
                      [StmtExec (args v), Log (InsertFailed (V (fsno v)) e),
                       StmtClose, TxRollback, RowsClose]\<rparr>"
proof -
  define t0 where "t0 = \<lparr>pending = SalesDB targetDB, nexec = 0, tx_done = False\<rparr>"
  have b: "Begin targetDB = Inr t0" using assms(2) by (simp add: Begin_def t0_def)
  have p: "Prepare targetDB insertSQL = Inr insertSQL" using assms(3) by (simp add: Prepare_def)
  have "no_hard_error targetDB insertSQL (nexec t0) pre"
    and "hard_error targetDB insertSQL (nexec t0 + length pre) (args v) = Some e"
    using assms(5,6) by (simp_all add: t0_def)
  from transfer_abort[OF assms(4) this, of 0 "[SrcQuery, TgtBegin, TxPrepare, Log StartingTransfer]"]
  obtain t' ys where tr: "transfer cv targetDB insertSQL (cursor rows) 0 t0
        [SrcQuery, TgtBegin, TxPrepare, Log StartingTransfer] =
      (0 + length pre, Some (Errorf ''error executing insert statement'' e), t',
       [SrcQuery, TgtBegin, TxPrepare, Log StartingTransfer] @ ys @
       [StmtExec (args v), Log (InsertFailed (V (fsno v)) e)])"
    and d: "tx_done t' = tx_done t0" and le: "list_all loop_event ys" by blast
  have "\<not> tx_done t'" using d by (simp add: t0_def)
  then have "runETL cv sourceDB targetDB =
             \<lparr>ret_count = length pre,
              ret_err = Some (Errorf ''error executing insert statement'' e),
              target = targetDB,
              trace = [SrcQuery, TgtBegin, TxPrepare, Log StartingTransfer] @ ys @
                      [StmtExec (args v), Log (InsertFailed (V (fsno v)) e),
                       StmtClose, TxRollback, RowsClose]\<rparr>"
    using assms(1) b p tr by (simp add: runETL_def tx_Rollback_def)
  with le show ?thesis by blast
qed

lemma runETL_complete:
  assumes "Query sourceDB query = Inr rows"
    and "begin_err targetDB = None" and "prepare_err targetDB = None"
    and "no_hard_error targetDB insertSQL 0 (decoded cv (cursor rows))"
  shows "\<exists>ys. list_all loop_event ys
           \<and> execs ys = map args (decoded cv (cursor rows))
           \<and> length (skip_warnings ys) = length (undecodable cv (cursor rows))
           \<and> runETL cv sourceDB targetDB =
               (case Err rows of
                  Some err \<Rightarrow>
                    \<lparr>ret_count = length (decoded cv (cursor rows)),
                     ret_err = Some (Errorf ''error iterating over source rows'' err),
                     target = targetDB,
                     trace = [SrcQuery, TgtBegin, TxPrepare, Log StartingTransfer] @ ys @
                             [StmtClose, TxRollback, RowsClose]\<rparr>
                | None \<Rightarrow>
                    (case commit_err targetDB of
                       Some err \<Rightarrow>
                         \<lparr>ret_count = length (decoded cv (cursor rows)),
                          ret_err = Some (Errorf ''failed to commit transaction'' err),
                          target = targetDB,
                          trace = [SrcQuery, TgtBegin, TxPrepare, Log StartingTransfer] @ ys @
                                  [TxCommit, StmtClose, RowsClose]\<rparr>
                     | None \<Rightarrow>
                         \<lparr>ret_count = length (decoded cv (cursor rows)),
                          ret_err = None,
                          target = targetDB\<lparr>SalesDB :=
                            foldl (insert_on_conflict_do_nothing insertSQL) (SalesDB targetDB)
                              (map args (decoded cv (cursor rows)))\<rparr>,
                          trace = [SrcQuery, TgtBegin, TxPrepare, Log StartingTransfer] @ ys @
                                  [TxCommit, StmtClose, RowsClose]\<rparr>))"
proof -
  define t0 where "t0 = \<lparr>pending = SalesDB targetDB, nexec = 0, tx_done = False\<rparr>"
  have b: "Begin targetDB = Inr t0" using assms(2) by (simp add: Begin_def t0_def)
  have p: "Prepare targetDB insertSQL = Inr insertSQL" using assms(3) by (simp add: Prepare_def)
  have "no_hard_error targetDB insertSQL (nexec t0) (decoded cv (cursor rows))"
    using assms(4) by (simp add: t0_def)
  from transfer_complete[OF this, of 0 "[SrcQuery, TgtBegin, TxPrepare, Log StartingTransfer]"]
  obtain ys where tr: "transfer cv targetDB insertSQL (cursor rows) 0 t0
        [SrcQuery, TgtBegin, TxPrepare, Log StartingTransfer] =
      (0 + length (decoded cv (cursor rows)), None,
       t0\<lparr>pending := foldl (insert_on_conflict_do_nothing insertSQL) (pending t0)
                       (map args (decoded cv (cursor rows))),
          nexec := nexec t0 + length (decoded cv (cursor rows))\<rparr>,
       [SrcQuery, TgtBegin, TxPrepare, Log StartingTransfer] @ ys)"
    and ys: "list_all loop_event ys" "execs ys = map args (decoded cv (cursor rows))"
      "length (skip_warnings ys) = length (undecodable cv (cursor rows))" by blast
  have "runETL cv sourceDB targetDB =
               (case Err rows of
                  Some err \<Rightarrow>
                    \<lparr>ret_count = length (decoded cv (cursor rows)),
                     ret_err = Some (Errorf ''error iterating over source rows'' err),
                     target = targetDB,
                     trace = [SrcQuery, TgtBegin, TxPrepare, Log StartingTransfer] @ ys @
                             [StmtClose, TxRollback, RowsClose]\<rparr>
                | None \<Rightarrow>
                    (case commit_err targetDB of
                       Some err \<Rightarrow>
                         \<lparr>ret_count = length (decoded cv (cursor rows)),
                          ret_err = Some (Errorf ''failed to commit transaction'' err),
                          target = targetDB,
                          trace = [SrcQuery, TgtBegin, TxPrepare, Log StartingTransfer] @ ys @
                                  [TxCommit, StmtClose, RowsClose]\<rparr>
                     | None \<Rightarrow>
                         \<lparr>ret_count = length (decoded cv (cursor rows)),
                          ret_err = None,
                          target = targetDB\<lparr>SalesDB :=
                            foldl (insert_on_conflict_do_nothing insertSQL) (SalesDB targetDB)
                              (map args (decoded cv (cursor rows)))\<rparr>,
                          trace = [SrcQuery, TgtBegin, TxPrepare, Log StartingTransfer] @ ys @
                                  [TxCommit, StmtClose, RowsClose]\<rparr>))"
    using assms(1) b p tr
    by (simp add: runETL_def tx_Rollback_def Commit_def t0_def split: option.splits)
  with ys show ?thesis by blast
qed

lemma runETL_success_D:
  assumes "ret_err (runETL cv sourceDB targetDB) = None"
  shows "\<exists>rows. Query sourceDB query = Inr rows \<and> Err rows = None
           \<and> begin_err targetDB = None \<and> prepare_err targetDB = None
           \<and> commit_err targetDB = None
           \<and> no_hard_error targetDB insertSQL 0 (decoded cv (cursor rows))"
proof (cases "Query sourceDB query")
  case (Inl e)
  with assms show ?thesis by (simp add: runETL_def)
next
  case (Inr rows)
  define t0 where "t0 = \<lparr>pending = SalesDB targetDB, nexec = 0, tx_done = False\<rparr>"
  from assms Inr have b: "begin_err targetDB = None"
    by (cases "begin_err targetDB") (simp_all add: runETL_def Begin_def)
  from assms Inr b have p: "prepare_err targetDB = None"
    by (cases "prepare_err targetDB") (simp_all add: runETL_def Begin_def Prepare_def)
  obtain n' eo t' tr' where tr: "transfer cv targetDB insertSQL (cursor rows) 0 t0
        [SrcQuery, TgtBegin, TxPrepare, Log StartingTransfer] = (n', eo, t', tr')"
    by (metis prod_cases4)
  from assms Inr b p tr have eo: "eo = None"
    by (cases eo) (simp_all add: runETL_def Begin_def Prepare_def t0_def)
  from assms Inr b p tr eo have e: "Err rows = None"
    by (cases "Err rows") (simp_all add: runETL_def Begin_def Prepare_def t0_def)
  from assms Inr b p tr eo e have c: "commit_err targetDB = None"
    by (cases "commit_err targetDB") (simp_all add: runETL_def Begin_def Prepare_def t0_def Commit_def)
  from transfer_None_D[OF tr[unfolded eo]]
  have "no_hard_error targetDB insertSQL 0 (decoded cv (cursor rows))" by (simp add: t0_def)
  with Inr b p e c show ?thesis by blast
qed

lemma runETL_target_cases:
  "target (runETL cv s t) = t \<or> ret_err (runETL cv s t) = None"
  by (auto simp: runETL_def split: sum.splits option.splits prod.splits)

lemma new_rows_of_run:
  assumes "Query sourceDB query = Inr rows"
    and "row \<in> set (SalesDB (target (runETL cv sourceDB targetDB)))"
    and "row \<notin> set (SalesDB targetDB)"
  shows "\<exists>c\<in>set (cursor rows). \<exists>w. Scan cv c = Inr w \<and> row = new_row insertSQL (args w)"
proof -
  from runETL_target_cases[of cv sourceDB targetDB] assms(2,3)
  have ok: "ret_err (runETL cv sourceDB targetDB) = None" by auto
  from runETL_success_D[OF ok] assms(1) have e: "Err rows = None"
    and b: "begin_err targetDB = None" and p: "prepare_err targetDB = None"
    and c: "commit_err targetDB = None"
    and n: "no_hard_error targetDB insertSQL 0 (decoded cv (cursor rows))" by auto
  from runETL_complete[OF assms(1) b p n] e c
  have "SalesDB (target (runETL cv sourceDB targetDB)) =
          foldl (insert_on_conflict_do_nothing insertSQL) (SalesDB targetDB)
            (map args (decoded cv (cursor rows)))" by auto
  with assms(2,3) set_foldl_insert[of insertSQL "SalesDB targetDB" "map args (decoded cv (cursor rows))"]
  obtain w where "w \<in> set (decoded cv (cursor rows))" "row = new_row insertSQL (args w)"
    by auto
  with decoded_from_cursor[of w cv "cursor rows"] show ?thesis by blast
qed

lemma decoded_append: "decoded cv (xs @ ys) = decoded cv xs @ decoded cv ys"
  by (induction xs) (simp_all split: sum.splits)

lemma stored_null_pattern:
  assumes "Scan cv c = Inr w"
  shows "map (\<lambda>x. snd x = DNull) (new_row insertSQL (args w)) = map (\<lambda>x. x = DNull) c"
proof -
  have l: "length (into_columns insertSQL) = length (args w)"
    by (simp add: insertSQL_def length_args)
  have "map (\<lambda>x. snd x = DNull) (new_row insertSQL (args w))
          = map (\<lambda>x. x = DNull) (map snd (zip (into_columns insertSQL) (args w)))"
    by (simp add: new_row_args comp_def)
  also have "\<dots> = map (\<lambda>x. x = DNull) (args w)" using l by simp
  also have "\<dots> = map (\<lambda>x. x = DNull) c" using assms by (rule Scan_null_pattern(1))
  finally show ?thesis .
qed

lemma decoded_row_is_loaded:
  assumes q: "Query sourceDB query = Inr rows"
    and ok: "ret_err (runETL cv sourceDB targetDB) = None"
    and cur: "cursor rows = before @ c # after"
    and s: "Scan cv c = Inr w"
    and fresh: "Some (NullString_Value (fsno w)) \<notin> key_of insertSQL ` set (SalesDB targetDB)"
    and first: "\<forall>u\<in>set (decoded cv before). NullString_Value (fsno u) \<noteq> NullString_Value (fsno w)"
  shows "new_row insertSQL (args w) \<in> set (SalesDB (target (runETL cv sourceDB targetDB)))"
proof -
  from runETL_success_D[OF ok] q have e: "Err rows = None"
    and b: "begin_err targetDB = None" and p: "prepare_err targetDB = None"
    and c: "commit_err targetDB = None"
    and n: "no_hard_error targetDB insertSQL 0 (decoded cv (cursor rows))" by auto
  from runETL_complete[OF q b p n] e c
  have t: "SalesDB (target (runETL cv sourceDB targetDB)) =
          foldl (insert_on_conflict_do_nothing insertSQL) (SalesDB targetDB)
            (map args (decoded cv (cursor rows)))" by auto
  have d: "map args (decoded cv (cursor rows))
             = map args (decoded cv before) @ args w # map args (decoded cv after)"
    using s by (simp add: cur decoded_append)
  have k: "key_of insertSQL (new_row insertSQL (args w))
             \<notin> key_of insertSQL ` set (SalesDB targetDB)"
    using fresh by (simp add: key_of_new_row)
  have f: "\<forall>b\<in>set (map args (decoded cv before)).
             key_of insertSQL (new_row insertSQL b) \<noteq> key_of insertSQL (new_row insertSQL (args w))"
    using first by (auto simp: key_of_new_row)
  from first_key_is_stored[OF k f] show ?thesis unfolding t d .
qed

section \<open>The example stores, evaluated\<close>

lemma eval_row_ex: "eval_row query (ex_row k np) = Some (k, ex_cols k np)"
  by (simp add: eval_row_def ex_row_def query_def ex_cols_def)

lemma Scan_ex_float:
  "Scan ex_cv (ex_cols (DString k) (DFloat f)) = Inr (ex_vars k \<lparr>V = f, Valid = True\<rparr>)"
  by (simp add: Scan_def ex_cols_def ex_cv_def ex_vars_def scan_col_def NullString_Scan_def
      NullTime_Scan_def NullFloat64_Scan_def Null_Scan_def)

lemma Scan_ex_null:
  "Scan ex_cv (ex_cols (DString k) DNull) = Inr (ex_vars k \<lparr>V = 0, Valid = False\<rparr>)"
  by (simp add: Scan_def ex_cols_def ex_cv_def ex_vars_def scan_col_def NullString_Scan_def
      NullTime_Scan_def NullFloat64_Scan_def Null_Scan_def)

lemma Scan_ex_string:
  "Scan ex_cv (ex_cols (DString k) (DString s)) =
     Inl (ScanError 11 (DriverError ''unsupported Scan (float64)''))"
  by (simp add: Scan_def ex_cols_def ex_cv_def ex_vars_def scan_col_def NullString_Scan_def
      NullTime_Scan_def NullFloat64_Scan_def Null_Scan_def)

lemma hard_error_ex:
  "hard_error ex_target insertSQL i (args (ex_vars k np)) =
     (if NullFloat64_Value np = DFloat 0x4202A05F20000000
      then Some (DriverError ''pq: numeric field overflow'') else None)"
  by (simp add: hard_error_def ex_target_def args_def ex_vars_def insertSQL_def new_row_def
      createTableSQL_def NullString_Value_def Null_Value_def)

lemma Query_ex_hard:
  "Query (ex_source ex_sales_hard) query =
     Inr \<lparr>cursor =
            [ex_cols (DString ''A0'') (DString ''n/a''),
             ex_cols (DString ''A1'') (DFloat 0x4059200000000000),
             ex_cols (DString ''A2'') DNull,
             ex_cols (DString ''A4'') (DFloat 0x4202A05F20000000),
             ex_cols (DString ''A5'') (DFloat 0x4014000000000000)],
          Err = None\<rparr>"
  by (simp add: Query_def ex_source_def ex_sales_hard_def eval_row_ex)
     (simp add: query_def sourceTableName_def)

lemma Query_ex_skip:
  "Query (ex_source ex_sales_skip) query =
     Inr \<lparr>cursor =
            [ex_cols (DString ''A1'') (DString ''n/a''),
             ex_cols (DString ''A2'') DNull,
             ex_cols (DString ''A3'') (DFloat 0x4059200000000000)],
          Err = None\<rparr>"
  by (simp add: Query_def ex_source_def ex_sales_skip_def eval_row_ex)
     (simp add: query_def sourceTableName_def)

lemma Query_ex_empty:
  "Query (ex_source []) query = Inr \<lparr>cursor = [], Err = None\<rparr>"
  by (simp add: Query_def ex_source_def query_def sourceTableName_def)

lemma fsno_ex_vars: "NullString_Value (fsno (ex_vars k np)) = DString k"
  by (simp add: ex_vars_def NullString_Value_def Null_Value_def)

lemmas ex_evals = Scan_ex_float Scan_ex_null Scan_ex_string fsno_ex_vars

lemma no_hard_error_ex_skip:
  "no_hard_error ex_target insertSQL 0
     [ex_vars ''A2'' \<lparr>V = 0, Valid = False\<rparr>,
      ex_vars ''A3'' \<lparr>V = 0x4059200000000000, Valid = True\<rparr>]"
  by (simp add: hard_error_ex NullFloat64_Value_def Null_Value_def)

lemma foldl_ex_skip:
  "foldl (insert_on_conflict_do_nothing insertSQL) []
     (map args [ex_vars ''A2'' \<lparr>V = 0, Valid = False\<rparr>,
                ex_vars ''A3'' \<lparr>V = 0x4059200000000000, Valid = True\<rparr>])
   = SalesDB ex_loaded"
  by (simp add: insert_on_conflict_do_nothing_def key_of_new_row fsno_ex_vars ex_loaded_def)

lemma runETL_ex_skip:
  "ret_err (runETL ex_cv (ex_source ex_sales_skip) ex_target) = None
   \<and> ret_count (runETL ex_cv (ex_source ex_sales_skip) ex_target) = 2
   \<and> target (runETL ex_cv (ex_source ex_sales_skip) ex_target) = ex_loaded"
proof -
  have t: "begin_err ex_target = None" "prepare_err ex_target = None"
    "commit_err ex_target = None" "SalesDB ex_target = []"
    by (simp_all add: ex_target_def)
  have n: "no_hard_error ex_target insertSQL 0 (decoded ex_cv (cursor \<lparr>cursor =
            [ex_cols (DString ''A1'') (DString ''n/a''),
             ex_cols (DString ''A2'') DNull,
             ex_cols (DString ''A3'') (DFloat 0x4059200000000000)],
          Err = None\<rparr>))"
    using no_hard_error_ex_skip by (simp add: ex_evals)
  from runETL_complete[OF Query_ex_skip t(1,2) n, of]
  show ?thesis
    using foldl_ex_skip by (auto simp add: t ex_evals ex_loaded_def)
qed

lemma Query_ex_b1:
  "Query (ex_source ex_sales_b1) query =
     Inr \<lparr>cursor = [ex_cols (DString ''B1'') (DFloat 0x4202A05F20000000)], Err = None\<rparr>"
  by (simp add: Query_def ex_source_def ex_sales_b1_def eval_row_ex)
     (simp add: query_def sourceTableName_def)

lemma V_fsno_ex_vars: "V (fsno (ex_vars k np)) = k"
  by (simp add: ex_vars_def)

lemma runETL_ex_hard:
  "ret_count (runETL ex_cv (ex_source ex_sales_hard) ex_target) = 2
   \<and> ret_err (runETL ex_cv (ex_source ex_sales_hard) ex_target)
       = Some (Errorf ''error executing insert statement''
                 (DriverError ''pq: numeric field overflow''))
   \<and> Log (InsertFailed ''A4'' (DriverError ''pq: numeric field overflow''))
       \<in> set (trace (runETL ex_cv (ex_source ex_sales_hard) ex_target))"
proof -
  have d: "decoded ex_cv (cursor \<lparr>cursor =
            [ex_cols (DString ''A0'') (DString ''n/a''),
             ex_cols (DString ''A1'') (DFloat 0x4059200000000000),
             ex_cols (DString ''A2'') DNull,
             ex_cols (DString ''A4'') (DFloat 0x4202A05F20000000),
             ex_cols (DString ''A5'') (DFloat 0x4014000000000000)],
          Err = None\<rparr>) =
        [ex_vars ''A1'' \<lparr>V = 0x4059200000000000, Valid = True\<rparr>,
         ex_vars ''A2'' \<lparr>V = 0, Valid = False\<rparr>]
        @ ex_vars ''A4'' \<lparr>V = 0x4202A05F20000000, Valid = True\<rparr>
        # [ex_vars ''A5'' \<lparr>V = 0x4014000000000000, Valid = True\<rparr>]"
    by (simp add: ex_evals)
  have n: "no_hard_error ex_target insertSQL 0
             [ex_vars ''A1'' \<lparr>V = 0x4059200000000000, Valid = True\<rparr>,
              ex_vars ''A2'' \<lparr>V = 0, Valid = False\<rparr>]"
    by (simp add: hard_error_ex NullFloat64_Value_def Null_Value_def)
  have h: "hard_error ex_target insertSQL
             (length [ex_vars ''A1'' \<lparr>V = 0x4059200000000000, Valid = True\<rparr>,
                      ex_vars ''A2'' \<lparr>V = 0, Valid = False\<rparr>])
             (args (ex_vars ''A4'' \<lparr>V = 0x4202A05F20000000, Valid = True\<rparr>))
           = Some (DriverError ''pq: numeric field overflow'')"
    by (simp add: hard_error_ex NullFloat64_Value_def Null_Value_def)
  have b: "begin_err ex_target = None" and p: "prepare_err ex_target = None"
    by (simp_all add: ex_target_def)
  from runETL_abort[OF Query_ex_hard b p d n h]
  show ?thesis by (auto simp: V_fsno_ex_vars)
qed

lemma runETL_ex_b1:
  "ret_count (runETL ex_cv (ex_source ex_sales_b1) ex_target) = 0
   \<and> ret_err (runETL ex_cv (ex_source ex_sales_b1) ex_target)
       = Some (Errorf ''error executing insert statement''
                 (DriverError ''pq: numeric field overflow''))
   \<and> Log (InsertFailed ''B1'' (DriverError ''pq: numeric field overflow''))
       \<in> set (trace (runETL ex_cv (ex_source ex_sales_b1) ex_target))"
proof -
  have d: "decoded ex_cv (cursor \<lparr>cursor =
            [ex_cols (DString ''B1'') (DFloat 0x4202A05F20000000)], Err = None\<rparr>) =
        [] @ ex_vars ''B1'' \<lparr>V = 0x4202A05F20000000, Valid = True\<rparr> # []"
    by (simp add: ex_evals)
  have n: "no_hard_error ex_target insertSQL 0 []"
    by simp
  have h: "hard_error ex_target insertSQL (length ([] :: vars list))
             (args (ex_vars ''B1'' \<lparr>V = 0x4202A05F20000000, Valid = True\<rparr>))
           = Some (DriverError ''pq: numeric field overflow'')"
    by (simp add: hard_error_ex NullFloat64_Value_def Null_Value_def)
  have b: "begin_err ex_target = None" and p: "prepare_err ex_target = None"
    by (simp_all add: ex_target_def)
  from runETL_abort[OF Query_ex_b1 b p d n h]
  show ?thesis by (auto simp: V_fsno_ex_vars)
qed

lemma Scan_ex_null_key:
  "Scan ex_cv (ex_cols DNull (DFloat f)) = Inr (ex_vars_null_key \<lparr>V = f, Valid = True\<rparr>)"
  by (simp add: Scan_def ex_cols_def ex_cv_def ex_vars_def scan_col_def NullString_Scan_def
      NullTime_Scan_def NullFloat64_Scan_def Null_Scan_def ex_vars_null_key_def)

lemma Query_ex_null_key:
  "Query (ex_source ex_sales_null_key) query =
     Inr \<lparr>cursor = [ex_cols DNull (DFloat 0x4059200000000000)], Err = None\<rparr>"
  by (simp add: Query_def ex_source_def ex_sales_null_key_def eval_row_ex)
     (simp add: query_def sourceTableName_def)

lemma hard_error_ex_null_key:
  "hard_error ex_target insertSQL 0 (args (ex_vars_null_key \<lparr>V = 0x4059200000000000, Valid = True\<rparr>))
     = Some (DriverError ''pq: null value violates not-null constraint'')"
  by (simp add: hard_error_def ex_target_def args_def ex_vars_def insertSQL_def new_row_def
      createTableSQL_def NullString_Value_def NullFloat64_Value_def Null_Value_def
      ex_vars_null_key_def)

lemma Query_ex_tie:
  "Query (ex_source ex_sales_tie) query =
     Inr \<lparr>cursor =
            [ex_cols (DString ''A1'') DNull,
             ex_cols (DString ''A1'') (DFloat 0x4059200000000000)],
          Err = None\<rparr>"
  by (simp add: Query_def ex_source_def ex_sales_tie_def eval_row_ex)
     (simp add: query_def sourceTableName_def)

lemma Query_ex_tie_rev:
  "Query (ex_source (rev ex_sales_tie)) query =
     Inr \<lparr>cursor =
            [ex_cols (DString ''A1'') (DFloat 0x4059200000000000),
             ex_cols (DString ''A1'') DNull],
          Err = None\<rparr>"
  by (simp add: Query_def ex_source_def ex_sales_tie_def eval_row_ex)
     (simp add: query_def sourceTableName_def)

section \<open>Properties of \<^verbatim>\<open>runETL\<close>\<close>

text \<open>
  C1 (atomicity of the load). When the inserts of the first \<open>k\<close> decoded rows meet no hard
  error and the insert of the next decoded row meets one, \<^verbatim>\<open>runETL\<close> returns the count
  \<open>k\<close> together with the error, the transaction is rolled back and never committed, and
  the target store is what it was before the run: no row of the run is committed.
\<close>

theorem atomicity_hard_error_rolls_back:
  assumes "Query sourceDB query = Inr rows"
    and "begin_err targetDB = None" and "prepare_err targetDB = None"
    and "decoded cv (cursor rows) = pre @ v # post"
    and "no_hard_error targetDB insertSQL 0 pre"
    and "hard_error targetDB insertSQL (length pre) (args v) = Some e"
  shows "ret_count (runETL cv sourceDB targetDB) = length pre
       \<and> ret_err (runETL cv sourceDB targetDB)
           = Some (Errorf ''error executing insert statement'' e)
       \<and> target (runETL cv sourceDB targetDB) = targetDB
       \<and> TxRollback \<in> set (trace (runETL cv sourceDB targetDB))
       \<and> TxCommit \<notin> set (trace (runETL cv sourceDB targetDB))"
proof -
  from runETL_abort[OF assms] obtain ys where "list_all loop_event ys"
    and "runETL cv sourceDB targetDB =
             \<lparr>ret_count = length pre,
              ret_err = Some (Errorf ''error executing insert statement'' e),
              target = targetDB,
              trace = [SrcQuery, TgtBegin, TxPrepare, Log StartingTransfer] @ ys @
                      [StmtExec (args v), Log (InsertFailed (V (fsno v)) e),
                       StmtClose, TxRollback, RowsClose]\<rparr>" by blast
  then show ?thesis using loop_event_not_tx[of ys] by simp
qed

theorem atomicity_hard_error_rolls_back_witness:
  "ret_count (runETL ex_cv (ex_source ex_sales_hard) ex_target) = 2
   \<and> ret_err (runETL ex_cv (ex_source ex_sales_hard) ex_target)
       = Some (Errorf ''error executing insert statement''
                 (DriverError ''pq: numeric field overflow''))
   \<and> target (runETL ex_cv (ex_source ex_sales_hard) ex_target) = ex_target
   \<and> TxRollback \<in> set (trace (runETL ex_cv (ex_source ex_sales_hard) ex_target))
   \<and> TxCommit \<notin> set (trace (runETL ex_cv (ex_source ex_sales_hard) ex_target))"
proof -
  have d: "decoded ex_cv (cursor \<lparr>cursor =
            [ex_cols (DString ''A0'') (DString ''n/a''),
             ex_cols (DString ''A1'') (DFloat 0x4059200000000000),
             ex_cols (DString ''A2'') DNull,
             ex_cols (DString ''A4'') (DFloat 0x4202A05F20000000),
             ex_cols (DString ''A5'') (DFloat 0x4014000000000000)],
          Err = None\<rparr>) =
        [ex_vars ''A1'' \<lparr>V = 0x4059200000000000, Valid = True\<rparr>,
         ex_vars ''A2'' \<lparr>V = 0, Valid = False\<rparr>]
        @ ex_vars ''A4'' \<lparr>V = 0x4202A05F20000000, Valid = True\<rparr>
        # [ex_vars ''A5'' \<lparr>V = 0x4014000000000000, Valid = True\<rparr>]"
    by (simp add: Scan_ex_float Scan_ex_null Scan_ex_string)
  have n: "no_hard_error ex_target insertSQL 0
             [ex_vars ''A1'' \<lparr>V = 0x4059200000000000, Valid = True\<rparr>,
              ex_vars ''A2'' \<lparr>V = 0, Valid = False\<rparr>]"
    by (simp add: hard_error_ex NullFloat64_Value_def Null_Value_def)
  have h: "hard_error ex_target insertSQL
             (length [ex_vars ''A1'' \<lparr>V = 0x4059200000000000, Valid = True\<rparr>,
                      ex_vars ''A2'' \<lparr>V = 0, Valid = False\<rparr>])
             (args (ex_vars ''A4'' \<lparr>V = 0x4202A05F20000000, Valid = True\<rparr>))
           = Some (DriverError ''pq: numeric field overflow'')"
    by (simp add: hard_error_ex NullFloat64_Value_def Null_Value_def)
  have b: "begin_err ex_target = None" and p: "prepare_err ex_target = None"
    by (simp_all add: ex_target_def)
  from atomicity_hard_error_rolls_back[OF Query_ex_hard b p d n h, of]
  show ?thesis by simp
qed

text \<open>
  C7 (extraction start failure). When the extraction query cannot be issued,
  \<^verbatim>\<open>runETL\<close> returns the count 0 and the query's error wrapped as
  \<^verbatim>\<open>failed to query source data\<close>; the only call it has made is the query itself, so no
  row was processed and no transaction was begun on the target, which is unchanged.
\<close>

theorem query_failure_is_fatal_and_early:
  assumes "Query sourceDB query = Inl e"
  shows "runETL cv sourceDB targetDB =
           \<lparr>ret_count = 0, ret_err = Some (Errorf ''failed to query source data'' e),
            target = targetDB, trace = [SrcQuery]\<rparr>"
  using assms by (simp add: runETL_def)

theorem query_failure_is_fatal_and_early_witness:
  "Query ((ex_source ex_sales_skip)\<lparr>query_err := Some (DriverError ''mssql: login failed'')\<rparr>)
     query = Inl (DriverError ''mssql: login failed'')
   \<and> runETL ex_cv ((ex_source ex_sales_skip)
         \<lparr>query_err := Some (DriverError ''mssql: login failed'')\<rparr>) ex_target =
       \<lparr>ret_count = 0,
        ret_err = Some (Errorf ''failed to query source data''
                          (DriverError ''mssql: login failed'')),
        target = ex_target, trace = [SrcQuery]\<rparr>"
proof -
  have q: "Query ((ex_source ex_sales_skip)
                    \<lparr>query_err := Some (DriverError ''mssql: login failed'')\<rparr>) query
           = Inl (DriverError ''mssql: login failed'')"
    by (simp add: Query_def)
  from q query_failure_is_fatal_and_early[OF q, of ex_cv ex_target] show ?thesis by simp
qed

text \<open>
  C10 (empty source). When the query succeeds and yields no row, and the target store
  accepts the transaction, \<^verbatim>\<open>runETL\<close> begins the transaction, prepares the statement,
  commits, and returns the count 0 with no error; the target keeps its rows.
\<close>

theorem empty_source_is_a_successful_run:
  assumes "Query sourceDB query = Inr rows" and "cursor rows = []" and "Err rows = None"
    and "begin_err targetDB = None" and "prepare_err targetDB = None"
    and "commit_err targetDB = None"
  shows "runETL cv sourceDB targetDB =
           \<lparr>ret_count = 0, ret_err = None, target = targetDB,
            trace = [SrcQuery, TgtBegin, TxPrepare, Log StartingTransfer, TxCommit,
                     StmtClose, RowsClose]\<rparr>"
  using assms by (simp add: runETL_def Begin_def Prepare_def Commit_def tx_Rollback_def)

theorem empty_source_is_a_successful_run_witness:
  "runETL ex_cv (ex_source []) ex_target =
     \<lparr>ret_count = 0, ret_err = None, target = ex_target,
      trace = [SrcQuery, TgtBegin, TxPrepare, Log StartingTransfer, TxCommit,
               StmtClose, RowsClose]\<rparr>"
proof -
  have t: "begin_err ex_target = None" "prepare_err ex_target = None"
    "commit_err ex_target = None"
    by (simp_all add: ex_target_def)
  from empty_source_is_a_successful_run[OF Query_ex_empty _ _ t, of ex_cv]
  show ?thesis by simp
qed

text \<open>
  C2 (idempotence of the load). When a run has succeeded, a second run over the same source
  and the target the first run left succeeds as well: no insert raises an error, every
  insert finds its \<^verbatim>\<open>fsno\<close> in the table and does nothing, so the target is exactly what
  the first run left, and the count is that of the first run.
\<close>

theorem rerun_is_idempotent:
  assumes "ret_err (runETL cv sourceDB targetDB) = None"
  shows "ret_err (runETL cv sourceDB (target (runETL cv sourceDB targetDB))) = None
       \<and> target (runETL cv sourceDB (target (runETL cv sourceDB targetDB)))
           = target (runETL cv sourceDB targetDB)
       \<and> ret_count (runETL cv sourceDB (target (runETL cv sourceDB targetDB)))
           = ret_count (runETL cv sourceDB targetDB)"
proof -
  from runETL_success_D[OF assms] obtain rows where q: "Query sourceDB query = Inr rows"
    and e: "Err rows = None" and b: "begin_err targetDB = None"
    and p: "prepare_err targetDB = None" and c: "commit_err targetDB = None"
    and n: "no_hard_error targetDB insertSQL 0 (decoded cv (cursor rows))" by blast
  let ?as = "map args (decoded cv (cursor rows))"
  let ?tbl = "foldl (insert_on_conflict_do_nothing insertSQL) (SalesDB targetDB) ?as"
  let ?db1 = "targetDB\<lparr>SalesDB := ?tbl\<rparr>"
  from runETL_complete[OF q b p n] e c
  have run1: "ret_count (runETL cv sourceDB targetDB) = length (decoded cv (cursor rows))"
    "target (runETL cv sourceDB targetDB) = ?db1" by auto
  have n1: "no_hard_error ?db1 insertSQL 0 (decoded cv (cursor rows))"
    using n no_hard_error_same_exec_err[of ?db1 targetDB] by simp
  have b1: "begin_err ?db1 = None" "prepare_err ?db1 = None" using b p by simp_all
  from runETL_complete[OF q b1 n1] e c
  have run2: "ret_count (runETL cv sourceDB ?db1) = length (decoded cv (cursor rows))"
    "ret_err (runETL cv sourceDB ?db1) = None"
    "target (runETL cv sourceDB ?db1) = ?db1\<lparr>SalesDB :=
        foldl (insert_on_conflict_do_nothing insertSQL) (SalesDB ?db1) ?as\<rparr>" by auto
  have "foldl (insert_on_conflict_do_nothing insertSQL) ?tbl ?as = ?tbl"
  proof (rule foldl_all_conflicts, rule ballI)
    fix as assume "as \<in> set ?as"
    from keys_in_foldl[OF this]
    show "key_of insertSQL (new_row insertSQL as) \<in> key_of insertSQL ` set ?tbl" .
  qed
  then show ?thesis using run1 run2 by simp
qed

theorem rerun_is_idempotent_witness:
  "ret_err (runETL ex_cv (ex_source ex_sales_skip) ex_target) = None
   \<and> ret_err (runETL ex_cv (ex_source ex_sales_skip) ex_loaded) = None
   \<and> target (runETL ex_cv (ex_source ex_sales_skip) ex_loaded) = ex_loaded
   \<and> ret_count (runETL ex_cv (ex_source ex_sales_skip) ex_loaded) = 2"
proof -
  have r: "ret_err (runETL ex_cv (ex_source ex_sales_skip) ex_target) = None"
    using runETL_ex_skip by simp
  from rerun_is_idempotent[OF r] r show ?thesis
    by (simp add: runETL_ex_skip)
qed

text \<open>
  C4 (row-skip isolation). In a run whose only failures are rows that do not decode, the
  run succeeds and commits; one warning is logged for each row that does not decode; the
  insert is executed for every row that decodes, in cursor order, whether it comes before
  or after a skipped row, and its \<^verbatim>\<open>fsno\<close> is in the target afterwards; the returned count
  is the number of rows of the cursor less the skipped rows.
\<close>

theorem row_skip_isolation:
  assumes "Query sourceDB query = Inr rows" and "Err rows = None"
    and "begin_err targetDB = None" and "prepare_err targetDB = None"
    and "commit_err targetDB = None"
    and "no_hard_error targetDB insertSQL 0 (decoded cv (cursor rows))"
  shows "ret_err (runETL cv sourceDB targetDB) = None
       \<and> ret_count (runETL cv sourceDB targetDB)
           = length (cursor rows) - length (undecodable cv (cursor rows))
       \<and> length (skip_warnings (trace (runETL cv sourceDB targetDB)))
           = length (undecodable cv (cursor rows))
       \<and> execs (trace (runETL cv sourceDB targetDB)) = map args (decoded cv (cursor rows))
       \<and> TxCommit \<in> set (trace (runETL cv sourceDB targetDB))
       \<and> (\<forall>v\<in>set (decoded cv (cursor rows)).
             Some (NullString_Value (fsno v))
               \<in> key_of insertSQL ` set (SalesDB (target (runETL cv sourceDB targetDB))))"
proof -
  from runETL_complete[OF assms(1,3,4,6)] assms(2,5)
  obtain ys where ys: "list_all loop_event ys"
      "execs ys = map args (decoded cv (cursor rows))"
      "length (skip_warnings ys) = length (undecodable cv (cursor rows))"
    and run: "runETL cv sourceDB targetDB =
       \<lparr>ret_count = length (decoded cv (cursor rows)),
        ret_err = None,
        target = targetDB\<lparr>SalesDB :=
          foldl (insert_on_conflict_do_nothing insertSQL) (SalesDB targetDB)
            (map args (decoded cv (cursor rows)))\<rparr>,
        trace = [SrcQuery, TgtBegin, TxPrepare, Log StartingTransfer] @ ys @
                [TxCommit, StmtClose, RowsClose]\<rparr>"
    by auto
  have cnt: "length (decoded cv (cursor rows))
               = length (cursor rows) - length (undecodable cv (cursor rows))"
    using length_decoded_undecodable[of cv "cursor rows"] by simp
  have keys: "Some (NullString_Value (fsno v))
       \<in> key_of insertSQL ` set (foldl (insert_on_conflict_do_nothing insertSQL)
              (SalesDB targetDB) (map args (decoded cv (cursor rows))))"
    if "v \<in> set (decoded cv (cursor rows))" for v
  proof -
    from that have "args v \<in> set (map args (decoded cv (cursor rows)))" by simp
    from keys_in_foldl[OF this, of insertSQL "SalesDB targetDB"] show ?thesis
      by (simp add: key_of_new_row)
  qed
  show ?thesis
    using ys cnt keys by (simp add: run execs_append skip_warnings_append)
qed

theorem row_skip_isolation_witness:
  "ret_err (runETL ex_cv (ex_source ex_sales_skip) ex_target) = None
   \<and> ret_count (runETL ex_cv (ex_source ex_sales_skip) ex_target) = 2
   \<and> length (skip_warnings (trace (runETL ex_cv (ex_source ex_sales_skip) ex_target))) = 1
   \<and> execs (trace (runETL ex_cv (ex_source ex_sales_skip) ex_target))
       = [args (ex_vars ''A2'' \<lparr>V = 0, Valid = False\<rparr>),
          args (ex_vars ''A3'' \<lparr>V = 0x4059200000000000, Valid = True\<rparr>)]
   \<and> Some (DString ''A3'')
       \<in> key_of insertSQL ` set (SalesDB (target (runETL ex_cv (ex_source ex_sales_skip) ex_target)))"
proof -
  have t: "begin_err ex_target = None" "prepare_err ex_target = None"
    "commit_err ex_target = None"
    by (simp_all add: ex_target_def)
  have n: "no_hard_error ex_target insertSQL 0 (decoded ex_cv (cursor \<lparr>cursor =
            [ex_cols (DString ''A1'') (DString ''n/a''),
             ex_cols (DString ''A2'') DNull,
             ex_cols (DString ''A3'') (DFloat 0x4059200000000000)],
          Err = None\<rparr>))"
    using no_hard_error_ex_skip by (simp add: ex_evals)
  from row_skip_isolation[OF Query_ex_skip _ t n]
  show ?thesis
    by (simp add: ex_evals undecodable_def)
qed

text \<open>
  C5 (count semantics). In a run that meets no hard error in an insert, the returned count
  is the number of rows that decode, which is the number of \<^verbatim>\<open>Exec\<close> calls made; the rows
  that do not decode are the only rows of the cursor not counted. A row whose insert is
  skipped by the conflict resolution is counted: the table grows by at most the count, and
  when every decoded row finds its \<^verbatim>\<open>fsno\<close> in the target the table does not grow at all
  while the count is still the number of decoded rows.
\<close>

theorem count_semantics:
  assumes "Query sourceDB query = Inr rows"
    and "begin_err targetDB = None" and "prepare_err targetDB = None"
    and "no_hard_error targetDB insertSQL 0 (decoded cv (cursor rows))"
  shows "ret_count (runETL cv sourceDB targetDB) = length (decoded cv (cursor rows))
       \<and> ret_count (runETL cv sourceDB targetDB)
           = length (execs (trace (runETL cv sourceDB targetDB)))
       \<and> ret_count (runETL cv sourceDB targetDB) + length (undecodable cv (cursor rows))
           = length (cursor rows)
       \<and> length (SalesDB (target (runETL cv sourceDB targetDB)))
           \<le> length (SalesDB targetDB) + ret_count (runETL cv sourceDB targetDB)
       \<and> ((\<forall>v\<in>set (decoded cv (cursor rows)).
              Some (NullString_Value (fsno v)) \<in> key_of insertSQL ` set (SalesDB targetDB))
            \<longrightarrow> SalesDB (target (runETL cv sourceDB targetDB)) = SalesDB targetDB)"
proof -
  let ?dec = "decoded cv (cursor rows)"
  let ?tbl = "foldl (insert_on_conflict_do_nothing insertSQL) (SalesDB targetDB) (map args ?dec)"
  from runETL_complete[OF assms]
  obtain ys where ys: "execs ys = map args ?dec"
    and run: "runETL cv sourceDB targetDB =
               (case Err rows of
                  Some err \<Rightarrow>
                    \<lparr>ret_count = length ?dec,
                     ret_err = Some (Errorf ''error iterating over source rows'' err),
                     target = targetDB,
                     trace = [SrcQuery, TgtBegin, TxPrepare, Log StartingTransfer] @ ys @
                             [StmtClose, TxRollback, RowsClose]\<rparr>
                | None \<Rightarrow>
                    (case commit_err targetDB of
                       Some err \<Rightarrow>
                         \<lparr>ret_count = length ?dec,
                          ret_err = Some (Errorf ''failed to commit transaction'' err),
                          target = targetDB,
                          trace = [SrcQuery, TgtBegin, TxPrepare, Log StartingTransfer] @ ys @
                                  [TxCommit, StmtClose, RowsClose]\<rparr>
                     | None \<Rightarrow>
                         \<lparr>ret_count = length ?dec,
                          ret_err = None,
                          target = targetDB\<lparr>SalesDB := ?tbl\<rparr>,
                          trace = [SrcQuery, TgtBegin, TxPrepare, Log StartingTransfer] @ ys @
                                  [TxCommit, StmtClose, RowsClose]\<rparr>))"
    by blast
  have c: "ret_count (runETL cv sourceDB targetDB) = length ?dec"
    by (simp add: run split: option.splits)
  have e: "execs (trace (runETL cv sourceDB targetDB)) = map args ?dec"
    using ys by (simp add: run execs_append split: option.splits)
  have t: "SalesDB (target (runETL cv sourceDB targetDB)) = SalesDB targetDB
         \<or> SalesDB (target (runETL cv sourceDB targetDB)) = ?tbl"
    by (simp add: run split: option.splits)
  have len: "length ?tbl \<le> length (SalesDB targetDB) + length ?dec"
    using length_foldl_insert[of insertSQL "SalesDB targetDB" "map args ?dec"] by simp
  have conf: "?tbl = SalesDB targetDB"
    if "\<forall>v\<in>set ?dec. Some (NullString_Value (fsno v)) \<in> key_of insertSQL ` set (SalesDB targetDB)"
  proof (rule foldl_all_conflicts)
    show "\<forall>as\<in>set (map args ?dec).
            key_of insertSQL (new_row insertSQL as) \<in> key_of insertSQL ` set (SalesDB targetDB)"
      using that by (auto simp: key_of_new_row)
  qed
  show ?thesis
    using c e t len conf length_decoded_undecodable[of cv "cursor rows"] by auto
qed

theorem count_semantics_witness:
  "ret_count (runETL ex_cv (ex_source ex_sales_skip) ex_loaded) = 2
   \<and> length (execs (trace (runETL ex_cv (ex_source ex_sales_skip) ex_loaded))) = 2
   \<and> length (undecodable ex_cv
        [ex_cols (DString ''A1'') (DString ''n/a''),
         ex_cols (DString ''A2'') DNull,
         ex_cols (DString ''A3'') (DFloat 0x4059200000000000)]) = 1
   \<and> SalesDB (target (runETL ex_cv (ex_source ex_sales_skip) ex_loaded)) = SalesDB ex_loaded"
proof -
  have t: "begin_err ex_loaded = None" "prepare_err ex_loaded = None"
    by (simp_all add: ex_loaded_def ex_target_def)
  have "no_hard_error ex_loaded insertSQL 0
          [ex_vars ''A2'' \<lparr>V = 0, Valid = False\<rparr>,
           ex_vars ''A3'' \<lparr>V = 0x4059200000000000, Valid = True\<rparr>]"
  proof -
    have "exec_err ex_loaded = exec_err ex_target" by (simp add: ex_loaded_def)
    show ?thesis
      unfolding no_hard_error_same_exec_err[OF \<open>exec_err ex_loaded = exec_err ex_target\<close>]
      by (rule no_hard_error_ex_skip)
  qed
  then have n: "no_hard_error ex_loaded insertSQL 0 (decoded ex_cv (cursor \<lparr>cursor =
            [ex_cols (DString ''A1'') (DString ''n/a''),
             ex_cols (DString ''A2'') DNull,
             ex_cols (DString ''A3'') (DFloat 0x4059200000000000)],
          Err = None\<rparr>))"
    by (simp add: ex_evals)
  from count_semantics[OF Query_ex_skip t n]
  show ?thesis
    by (simp add: ex_evals undecodable_def ex_loaded_def key_of_new_row)
qed

text \<open>
  C3 (what a hard insert failure surfaces), as amended. On a hard insert failure
  \<^verbatim>\<open>runETL\<close> returns, next to the count of rows processed before the failure, the store's
  error wrapped as \<^verbatim>\<open>error executing insert statement\<close>, and it writes the \<^verbatim>\<open>fsno\<close> of the
  offending row to the log together with the store's error. The returned error is made of
  the store's error alone.
\<close>

theorem hard_error_is_logged_and_returned:
  assumes "Query sourceDB query = Inr rows"
    and "begin_err targetDB = None" and "prepare_err targetDB = None"
    and "decoded cv (cursor rows) = pre @ v # post"
    and "no_hard_error targetDB insertSQL 0 pre"
    and "hard_error targetDB insertSQL (length pre) (args v) = Some e"
  shows "ret_err (runETL cv sourceDB targetDB)
           = Some (Errorf ''error executing insert statement'' e)
       \<and> ret_count (runETL cv sourceDB targetDB) = length pre
       \<and> Log (InsertFailed (V (fsno v)) e) \<in> set (trace (runETL cv sourceDB targetDB))"
proof -
  from runETL_abort[OF assms] show ?thesis by auto
qed

theorem hard_error_is_logged_and_returned_witness:
  "ret_err (runETL ex_cv (ex_source ex_sales_b1) ex_target)
       = Some (Errorf ''error executing insert statement''
                 (DriverError ''pq: numeric field overflow''))
   \<and> ret_count (runETL ex_cv (ex_source ex_sales_b1) ex_target) = 0
   \<and> Log (InsertFailed ''B1'' (DriverError ''pq: numeric field overflow''))
       \<in> set (trace (runETL ex_cv (ex_source ex_sales_b1) ex_target))"
proof -
  have d: "decoded ex_cv (cursor \<lparr>cursor =
            [ex_cols (DString ''B1'') (DFloat 0x4202A05F20000000)], Err = None\<rparr>) =
        [] @ ex_vars ''B1'' \<lparr>V = 0x4202A05F20000000, Valid = True\<rparr> # []"
    by (simp add: ex_evals)
  have n: "no_hard_error ex_target insertSQL 0 []"
    by simp
  have h: "hard_error ex_target insertSQL (length ([] :: vars list))
             (args (ex_vars ''B1'' \<lparr>V = 0x4202A05F20000000, Valid = True\<rparr>))
           = Some (DriverError ''pq: numeric field overflow'')"
    by (simp add: hard_error_ex NullFloat64_Value_def Null_Value_def)
  have b: "begin_err ex_target = None" and p: "prepare_err ex_target = None"
    by (simp_all add: ex_target_def)
  from hard_error_is_logged_and_returned[OF Query_ex_b1 b p d n h]
  show ?thesis by (simp add: V_fsno_ex_vars)
qed

text \<open>
  C3 as stated fails: the returned error does not carry the \<^verbatim>\<open>fsno\<close> of the offending row,
  nor the count. Two runs that fail at different rows (\<^verbatim>\<open>A4\<close> and \<^verbatim>\<open>B1\<close>) after
  different numbers of processed rows (2 and 0) return the same error; the rows appear in
  the log only.
\<close>

theorem returned_error_omits_row_and_count_counterexample:
  "ret_err (runETL ex_cv (ex_source ex_sales_hard) ex_target)
     = ret_err (runETL ex_cv (ex_source ex_sales_b1) ex_target)
   \<and> ret_err (runETL ex_cv (ex_source ex_sales_hard) ex_target)
       = Some (Errorf ''error executing insert statement''
                 (DriverError ''pq: numeric field overflow''))
   \<and> ret_count (runETL ex_cv (ex_source ex_sales_hard) ex_target) = 2
   \<and> ret_count (runETL ex_cv (ex_source ex_sales_b1) ex_target) = 0
   \<and> Log (InsertFailed ''A4'' (DriverError ''pq: numeric field overflow''))
       \<in> set (trace (runETL ex_cv (ex_source ex_sales_hard) ex_target))
   \<and> Log (InsertFailed ''B1'' (DriverError ''pq: numeric field overflow''))
       \<in> set (trace (runETL ex_cv (ex_source ex_sales_b1) ex_target))"
  using runETL_ex_hard runETL_ex_b1 by simp

text \<open>
  C9 (positional column invariant). The select list of the extraction query, the column
  list of the insert statement and the arguments of \<^verbatim>\<open>Exec\<close> each have 12 entries, the
  column list names the columns of the created table in their order, and the
  placeholders are \<^verbatim>\<open>$1\<close> to \<^verbatim>\<open>$12\<close> in order. A source row that the query evaluates and
  \<^verbatim>\<open>Scan\<close> decodes has 12 columns, and each source column reaches its own target column
  through the variable of the same name: \<^verbatim>\<open>fsno\<close>, \<^verbatim>\<open>salestype\<close>, \<^verbatim>\<open>attachmentno\<close>,
  \<^verbatim>\<open>customer\<close>, \<^verbatim>\<open>region\<close>, \<^verbatim>\<open>date\<close> (to \<^verbatim>\<open>sale_date\<close>), \<^verbatim>\<open>code\<close>, \<^verbatim>\<open>name\<close> (to
  \<^verbatim>\<open>item_name\<close>), \<^verbatim>\<open>measurementunit\<close>, \<^verbatim>\<open>unitprice\<close>, \<^verbatim>\<open>soldquantity\<close> and \<^verbatim>\<open>netpay\<close>.
\<close>

theorem positional_columns:
  "length (select_list query) = 12
   \<and> length (into_columns insertSQL) = 12
   \<and> into_columns insertSQL = map fst (table_columns createTableSQL)
   \<and> placeholders insertSQL = [1..<13]
   \<and> length (args v) = 12
   \<and> (eval_row query r = Some (k, cols) \<and> Scan cv cols = Inr w \<longrightarrow>
        length cols = 12
      \<and> carried r ''fsno'' (NullString_Scan cv) (fsno w) NullString_Value
          ''fsno'' (new_row insertSQL (args w))
      \<and> carried r ''salestype'' (NullString_Scan cv) (salestype w) NullString_Value
          ''salestype'' (new_row insertSQL (args w))
      \<and> carried r ''attachmentno'' (NullString_Scan cv) (attachmentno w) NullString_Value
          ''attachmentno'' (new_row insertSQL (args w))
      \<and> carried r ''customer'' (NullString_Scan cv) (customer w) NullString_Value
          ''customer'' (new_row insertSQL (args w))
      \<and> carried r ''region'' (NullString_Scan cv) (region w) NullString_Value
          ''region'' (new_row insertSQL (args w))
      \<and> carried r ''date'' (NullTime_Scan cv) (date w) NullTime_Value
          ''sale_date'' (new_row insertSQL (args w))
      \<and> carried r ''code'' (NullString_Scan cv) (code w) NullString_Value
          ''code'' (new_row insertSQL (args w))
      \<and> carried r ''name'' (NullString_Scan cv) (name w) NullString_Value
          ''item_name'' (new_row insertSQL (args w))
      \<and> carried r ''measurementunit'' (NullString_Scan cv) (measurementunit w)
          NullString_Value ''measurement_unit'' (new_row insertSQL (args w))
      \<and> carried r ''unitprice'' (NullFloat64_Scan cv) (unitprice w) NullFloat64_Value
          ''unit_price'' (new_row insertSQL (args w))
      \<and> carried r ''soldquantity'' (NullFloat64_Scan cv) (soldquantity w) NullFloat64_Value
          ''sold_quantity'' (new_row insertSQL (args w))
      \<and> carried r ''netpay'' (NullFloat64_Scan cv) (netpay w) NullFloat64_Value
          ''net_pay'' (new_row insertSQL (args w)))"
proof -
  have counts: "length (select_list query) = 12" "length (into_columns insertSQL) = 12"
    "into_columns insertSQL = map fst (table_columns createTableSQL)"
    "placeholders insertSQL = [1..<13]" "length (args v) = 12"
    by (simp_all add: query_def insertSQL_def createTableSQL_def args_def upt_rec)
  have flow: "length cols = 12
      \<and> carried r ''fsno'' (NullString_Scan cv) (fsno w) NullString_Value
          ''fsno'' (new_row insertSQL (args w))
      \<and> carried r ''salestype'' (NullString_Scan cv) (salestype w) NullString_Value
          ''salestype'' (new_row insertSQL (args w))
      \<and> carried r ''attachmentno'' (NullString_Scan cv) (attachmentno w) NullString_Value
          ''attachmentno'' (new_row insertSQL (args w))
      \<and> carried r ''customer'' (NullString_Scan cv) (customer w) NullString_Value
          ''customer'' (new_row insertSQL (args w))
      \<and> carried r ''region'' (NullString_Scan cv) (region w) NullString_Value
          ''region'' (new_row insertSQL (args w))
      \<and> carried r ''date'' (NullTime_Scan cv) (date w) NullTime_Value
          ''sale_date'' (new_row insertSQL (args w))
      \<and> carried r ''code'' (NullString_Scan cv) (code w) NullString_Value
          ''code'' (new_row insertSQL (args w))
      \<and> carried r ''name'' (NullString_Scan cv) (name w) NullString_Value
          ''item_name'' (new_row insertSQL (args w))
      \<and> carried r ''measurementunit'' (NullString_Scan cv) (measurementunit w)
          NullString_Value ''measurement_unit'' (new_row insertSQL (args w))
      \<and> carried r ''unitprice'' (NullFloat64_Scan cv) (unitprice w) NullFloat64_Value
          ''unit_price'' (new_row insertSQL (args w))
      \<and> carried r ''soldquantity'' (NullFloat64_Scan cv) (soldquantity w) NullFloat64_Value
          ''sold_quantity'' (new_row insertSQL (args w))
      \<and> carried r ''netpay'' (NullFloat64_Scan cv) (netpay w) NullFloat64_Value
          ''net_pay'' (new_row insertSQL (args w))"
    if e: "eval_row query r = Some (k, cols)" and s: "Scan cv cols = Inr w"
  proof -
    from s obtain c0 c1 c2 c3 c4 c5 c6 c7 c8 c9 c10 c11
      where c: "cols = [c0, c1, c2, c3, c4, c5, c6, c7, c8, c9, c10, c11]"
        and sc: "NullString_Scan cv c0 = Inr (fsno w)"
          "NullString_Scan cv c1 = Inr (salestype w)"
          "NullString_Scan cv c2 = Inr (attachmentno w)"
          "NullString_Scan cv c3 = Inr (customer w)"
          "NullString_Scan cv c4 = Inr (region w)"
          "NullTime_Scan cv c5 = Inr (date w)"
          "NullString_Scan cv c6 = Inr (code w)"
          "NullString_Scan cv c7 = Inr (name w)"
          "NullString_Scan cv c8 = Inr (measurementunit w)"
          "NullFloat64_Scan cv c9 = Inr (unitprice w)"
          "NullFloat64_Scan cv c10 = Inr (soldquantity w)"
          "NullFloat64_Scan cv c11 = Inr (netpay w)"
      by (rule Scan_Inr_E)
    from eval_row_query_D[OF e[unfolded c]] sc show ?thesis
      by (simp add: carried_def new_row_columns c)
  qed
  from counts flow show ?thesis by blast
qed

theorem positional_columns_witness:
  "eval_row query (ex_row (DString ''A2'') DNull)
     = Some (DString ''A2'', ex_cols (DString ''A2'') DNull)
   \<and> Scan ex_cv (ex_cols (DString ''A2'') DNull) = Inr (ex_vars ''A2'' \<lparr>V = 0, Valid = False\<rparr>)
   \<and> length (ex_cols (DString ''A2'') DNull) = 12
   \<and> carried (ex_row (DString ''A2'') DNull) ''fsno'' (NullString_Scan ex_cv)
       \<lparr>V = ''A2'', Valid = True\<rparr> NullString_Value ''fsno''
       (new_row insertSQL (args (ex_vars ''A2'' \<lparr>V = 0, Valid = False\<rparr>)))
   \<and> carried (ex_row (DString ''A2'') DNull) ''date'' (NullTime_Scan ex_cv)
       \<lparr>V = 1700000000, Valid = True\<rparr> NullTime_Value ''sale_date''
       (new_row insertSQL (args (ex_vars ''A2'' \<lparr>V = 0, Valid = False\<rparr>)))
   \<and> carried (ex_row (DString ''A2'') DNull) ''name'' (NullString_Scan ex_cv)
       \<lparr>V = ''Widget'', Valid = True\<rparr> NullString_Value ''item_name''
       (new_row insertSQL (args (ex_vars ''A2'' \<lparr>V = 0, Valid = False\<rparr>)))
   \<and> carried (ex_row (DString ''A2'') DNull) ''netpay'' (NullFloat64_Scan ex_cv)
       \<lparr>V = 0, Valid = False\<rparr> NullFloat64_Value ''net_pay''
       (new_row insertSQL (args (ex_vars ''A2'' \<lparr>V = 0, Valid = False\<rparr>)))"
proof -
  have e: "eval_row query (ex_row (DString ''A2'') DNull)
             = Some (DString ''A2'', ex_cols (DString ''A2'') DNull)"
    by (rule eval_row_ex)
  have s: "Scan ex_cv (ex_cols (DString ''A2'') DNull)
             = Inr (ex_vars ''A2'' \<lparr>V = 0, Valid = False\<rparr>)"
    by (rule Scan_ex_null)
  from positional_columns[of "ex_vars ''A2'' \<lparr>V = 0, Valid = False\<rparr>" "ex_row (DString ''A2'') DNull" "DString ''A2''"
      "ex_cols (DString ''A2'') DNull" ex_cv "ex_vars ''A2'' \<lparr>V = 0, Valid = False\<rparr>"] e s
  show ?thesis by (simp add: ex_vars_def)
qed

text \<open>
  C6 (null pass-through), as amended. For each of the twelve columns, \<^verbatim>\<open>fsno\<close> included:
  a row that decodes has a holder that is not valid exactly where the source column is
  NULL, and the argument bound for the column is NULL exactly where the source column is
  NULL; a NULL never makes the decoding fail, since a failure names a column whose value
  is not NULL. In a run that succeeds, every row of the cursor that decodes is stored as
  the row of the column list with its bound arguments, with NULL in exactly the columns
  that are NULL at the source, unless its \<^verbatim>\<open>fsno\<close> is already in the target or was carried
  by an earlier decoded row of the run (the insert then does nothing); and every row that
  a run adds to the target is such a row. A NULL \<^verbatim>\<open>fsno\<close> is bound as NULL like any other
  field; the insert of such a row is a hard error, so the row is not stored.
\<close>

theorem null_pass_through:
  "(Scan cv cols = Inr v \<longrightarrow>
      [Valid (fsno v), Valid (salestype v), Valid (attachmentno v), Valid (customer v),
       Valid (region v), Valid (date v), Valid (code v), Valid (name v),
       Valid (measurementunit v), Valid (unitprice v), Valid (soldquantity v),
       Valid (netpay v)] = map (\<lambda>x. x \<noteq> DNull) cols
    \<and> map (\<lambda>x. x = DNull) (args v) = map (\<lambda>x. x = DNull) cols)
   \<and> (Scan cv cols' = Inl e \<longrightarrow>
        length cols' \<noteq> 12 \<or> (\<exists>i<12. cols' ! i \<noteq> DNull \<and> (\<exists>e'. e = ScanError i e')))
   \<and> (Query sourceDB query = Inr rows
        \<and> ret_err (runETL cv sourceDB targetDB) = None
        \<and> cursor rows = before @ src # after
        \<and> Scan cv src = Inr dec
        \<and> Some (NullString_Value (fsno dec)) \<notin> key_of insertSQL ` set (SalesDB targetDB)
        \<and> (\<forall>u\<in>set (decoded cv before).
               NullString_Value (fsno u) \<noteq> NullString_Value (fsno dec)) \<longrightarrow>
        new_row insertSQL (args dec) \<in> set (SalesDB (target (runETL cv sourceDB targetDB)))
        \<and> map (\<lambda>x. snd x = DNull) (new_row insertSQL (args dec))
            = map (\<lambda>x. x = DNull) src)
   \<and> (Query sourceDB query = Inr rows \<longrightarrow>
        (\<forall>row\<in>set (SalesDB (target (runETL cv sourceDB targetDB))).
           row \<in> set (SalesDB targetDB)
           \<or> (\<exists>c\<in>set (cursor rows). \<exists>w. Scan cv c = Inr w
                 \<and> map fst row = into_columns insertSQL
                 \<and> map snd row = args w
                 \<and> map (\<lambda>x. snd x = DNull) row = map (\<lambda>x. x = DNull) c)))
   \<and> (Scan cv cols'' = Inr v'' \<and> cols'' ! 0 = DNull \<longrightarrow>
        args v'' ! 0 = DNull \<and> hard_error db insertSQL i (args v'') \<noteq> None)"
proof (intro conjI impI ballI)
  assume "Scan cv cols = Inr v"
  then show "[Valid (fsno v), Valid (salestype v), Valid (attachmentno v), Valid (customer v),
       Valid (region v), Valid (date v), Valid (code v), Valid (name v),
       Valid (measurementunit v), Valid (unitprice v), Valid (soldquantity v),
       Valid (netpay v)] = map (\<lambda>x. x \<noteq> DNull) cols"
    and "map (\<lambda>x. x = DNull) (args v) = map (\<lambda>x. x = DNull) cols"
    by (rule Scan_null_pattern)+
next
  assume "Scan cv cols' = Inl e"
  then show "length cols' \<noteq> 12 \<or> (\<exists>i<12. cols' ! i \<noteq> DNull \<and> (\<exists>e'. e = ScanError i e'))"
    by (rule Scan_Inl_D)
next
  assume l: "Query sourceDB query = Inr rows
        \<and> ret_err (runETL cv sourceDB targetDB) = None
        \<and> cursor rows = before @ src # after
        \<and> Scan cv src = Inr dec
        \<and> Some (NullString_Value (fsno dec)) \<notin> key_of insertSQL ` set (SalesDB targetDB)
        \<and> (\<forall>u\<in>set (decoded cv before).
               NullString_Value (fsno u) \<noteq> NullString_Value (fsno dec))"
  then have "Query sourceDB query = Inr rows"
    and "ret_err (runETL cv sourceDB targetDB) = None"
    and "cursor rows = before @ src # after"
    and s: "Scan cv src = Inr dec"
    and "Some (NullString_Value (fsno dec)) \<notin> key_of insertSQL ` set (SalesDB targetDB)"
    and "\<forall>u\<in>set (decoded cv before).
           NullString_Value (fsno u) \<noteq> NullString_Value (fsno dec)"
    by simp_all
  then show "new_row insertSQL (args dec)
               \<in> set (SalesDB (target (runETL cv sourceDB targetDB)))"
    by (rule decoded_row_is_loaded)
  from s show "map (\<lambda>x. snd x = DNull) (new_row insertSQL (args dec))
                 = map (\<lambda>x. x = DNull) src"
    by (rule stored_null_pattern)
next
  fix row
  assume q: "Query sourceDB query = Inr rows"
    and r: "row \<in> set (SalesDB (target (runETL cv sourceDB targetDB)))"
  show "row \<in> set (SalesDB targetDB)
           \<or> (\<exists>c\<in>set (cursor rows). \<exists>w. Scan cv c = Inr w
                 \<and> map fst row = into_columns insertSQL
                 \<and> map snd row = args w
                 \<and> map (\<lambda>x. snd x = DNull) row = map (\<lambda>x. x = DNull) c)"
  proof (cases "row \<in> set (SalesDB targetDB)")
    case True
    then show ?thesis by simp
  next
    case False
    from new_rows_of_run[OF q r False] obtain c w where c: "c \<in> set (cursor rows)"
      and s: "Scan cv c = Inr w" and row: "row = new_row insertSQL (args w)" by blast
    have z: "row = zip (into_columns insertSQL) (args w)"
      using row by (simp add: new_row_args)
    have l: "length (into_columns insertSQL) = length (args w)"
      by (simp add: insertSQL_def length_args)
    have f: "map fst row = into_columns insertSQL" and sn: "map snd row = args w"
      using l by (simp_all add: z)
    have "map (\<lambda>x. snd x = DNull) row = map (\<lambda>x. x = DNull) (map snd row)"
      by (simp add: comp_def)
    also have "\<dots> = map (\<lambda>x. x = DNull) c"
      using Scan_null_pattern(1)[OF s] by (simp add: sn)
    finally show ?thesis using c s f sn by blast
  qed
next
  assume a: "Scan cv cols'' = Inr v'' \<and> cols'' ! 0 = DNull"
  then have nv: "\<not> Valid (fsno v'')" using Scan_null_key[of cv cols'' v''] by blast
  then show "args v'' ! 0 = DNull"
    by (simp add: args_def NullString_Value_def Null_Value_def)
  from nv show "hard_error db insertSQL i (args v'') \<noteq> None"
    by (rule hard_error_null_key)
qed

theorem null_pass_through_witness:
  "Scan ex_cv (ex_cols (DString ''A2'') DNull) = Inr (ex_vars ''A2'' \<lparr>V = 0, Valid = False\<rparr>)
   \<and> map (\<lambda>x. x = DNull) (args (ex_vars ''A2'' \<lparr>V = 0, Valid = False\<rparr>))
       = [False, False, True, False, True, False, False, False, False, True, False, True]
   \<and> map (\<lambda>x. x = DNull) (ex_cols (DString ''A2'') DNull)
       = [False, False, True, False, True, False, False, False, False, True, False, True]
   \<and> Scan ex_cv (ex_cols (DString ''A1'') (DString ''n/a''))
       = Inl (ScanError 11 (DriverError ''unsupported Scan (float64)''))
   \<and> (\<exists>i<12. ex_cols (DString ''A1'') (DString ''n/a'') ! i \<noteq> DNull
         \<and> (\<exists>e'. ScanError 11 (DriverError ''unsupported Scan (float64)'') = ScanError i e'))
   \<and> ret_err (runETL ex_cv (ex_source ex_sales_skip) ex_target) = None
   \<and> new_row insertSQL (args (ex_vars ''A2'' \<lparr>V = 0, Valid = False\<rparr>))
       \<in> set (SalesDB (target (runETL ex_cv (ex_source ex_sales_skip) ex_target)))
   \<and> map (\<lambda>x. snd x = DNull)
         (new_row insertSQL (args (ex_vars ''A2'' \<lparr>V = 0, Valid = False\<rparr>)))
       = [False, False, True, False, True, False, False, False, False, True, False, True]
   \<and> (\<exists>c\<in>set [ex_cols (DString ''A1'') (DString ''n/a''),
                 ex_cols (DString ''A2'') DNull,
                 ex_cols (DString ''A3'') (DFloat 0x4059200000000000)].
        \<exists>w. Scan ex_cv c = Inr w
          \<and> map snd (new_row insertSQL (args (ex_vars ''A2'' \<lparr>V = 0, Valid = False\<rparr>))) = args w
          \<and> map (\<lambda>x. snd x = DNull)
                (new_row insertSQL (args (ex_vars ''A2'' \<lparr>V = 0, Valid = False\<rparr>)))
              = map (\<lambda>x. x = DNull) c)
   \<and> Scan ex_cv (ex_cols DNull (DFloat 0x4059200000000000))
       = Inr (ex_vars_null_key \<lparr>V = 0x4059200000000000, Valid = True\<rparr>)
   \<and> hard_error ex_target insertSQL 0
         (args (ex_vars_null_key \<lparr>V = 0x4059200000000000, Valid = True\<rparr>)) \<noteq> None"
proof -
  note th = null_pass_through[where cv = ex_cv and cols = "ex_cols (DString ''A2'') DNull"
      and v = "ex_vars ''A2'' \<lparr>V = 0, Valid = False\<rparr>"
      and cols' = "ex_cols (DString ''A1'') (DString ''n/a'')"
      and e = "ScanError 11 (DriverError ''unsupported Scan (float64)'')"
      and sourceDB = "ex_source ex_sales_skip"
      and rows = "\<lparr>cursor =
            [ex_cols (DString ''A1'') (DString ''n/a''),
             ex_cols (DString ''A2'') DNull,
             ex_cols (DString ''A3'') (DFloat 0x4059200000000000)],
          Err = None\<rparr>"
      and targetDB = ex_target
      and before = "[ex_cols (DString ''A1'') (DString ''n/a'')]"
      and src = "ex_cols (DString ''A2'') DNull"
      and after = "[ex_cols (DString ''A3'') (DFloat 0x4059200000000000)]"
      and dec = "ex_vars ''A2'' \<lparr>V = 0, Valid = False\<rparr>"
      and cols'' = "ex_cols DNull (DFloat 0x4059200000000000)"
      and v'' = "ex_vars_null_key \<lparr>V = 0x4059200000000000, Valid = True\<rparr>"
      and db = ex_target and i = 0]
  have s1: "Scan ex_cv (ex_cols (DString ''A2'') DNull)
              = Inr (ex_vars ''A2'' \<lparr>V = 0, Valid = False\<rparr>)"
    by (rule Scan_ex_null)
  have s2: "Scan ex_cv (ex_cols (DString ''A1'') (DString ''n/a''))
              = Inl (ScanError 11 (DriverError ''unsupported Scan (float64)''))"
    by (rule Scan_ex_string)
  have ok: "ret_err (runETL ex_cv (ex_source ex_sales_skip) ex_target) = None"
    using runETL_ex_skip by simp
  have cur: "cursor \<lparr>cursor =
            [ex_cols (DString ''A1'') (DString ''n/a''),
             ex_cols (DString ''A2'') DNull,
             ex_cols (DString ''A3'') (DFloat 0x4059200000000000)],
          Err = None\<rparr>
        = [ex_cols (DString ''A1'') (DString ''n/a'')] @ ex_cols (DString ''A2'') DNull
          # [ex_cols (DString ''A3'') (DFloat 0x4059200000000000)]"
    by simp
  have fresh: "Some (NullString_Value (fsno (ex_vars ''A2'' \<lparr>V = 0, Valid = False\<rparr>)))
                 \<notin> key_of insertSQL ` set (SalesDB ex_target)"
    by (simp add: ex_target_def)
  have first: "\<forall>u\<in>set (decoded ex_cv [ex_cols (DString ''A1'') (DString ''n/a'')]).
                 NullString_Value (fsno u)
                   \<noteq> NullString_Value (fsno (ex_vars ''A2'' \<lparr>V = 0, Valid = False\<rparr>))"
    by (simp add: Scan_ex_string)
  have live: "new_row insertSQL (args (ex_vars ''A2'' \<lparr>V = 0, Valid = False\<rparr>))
             \<in> set (SalesDB (target (runETL ex_cv (ex_source ex_sales_skip) ex_target)))
           \<and> map (\<lambda>x. snd x = DNull)
                 (new_row insertSQL (args (ex_vars ''A2'' \<lparr>V = 0, Valid = False\<rparr>)))
               = map (\<lambda>x. x = DNull) (ex_cols (DString ''A2'') DNull)"
    by (rule mp[OF th[THEN conjunct2, THEN conjunct2, THEN conjunct1]])
       (intro conjI Query_ex_skip ok cur s1 fresh first)
  note m = live[THEN conjunct1]
  have nm: "new_row insertSQL (args (ex_vars ''A2'' \<lparr>V = 0, Valid = False\<rparr>))
             \<notin> set (SalesDB ex_target)"
    by (simp add: ex_target_def)
  have a: "map (\<lambda>x. x = DNull) (args (ex_vars ''A2'' \<lparr>V = 0, Valid = False\<rparr>))
             = map (\<lambda>x. x = DNull) (ex_cols (DString ''A2'') DNull)"
    using mp[OF th[THEN conjunct1] s1] by (rule conjunct2)
  have b: "map (\<lambda>x. x = DNull) (ex_cols (DString ''A2'') DNull)
       = [False, False, True, False, True, False, False, False, False, True, False, True]"
    by (simp add: ex_cols_def)
  have c: "\<exists>i<12. ex_cols (DString ''A1'') (DString ''n/a'') ! i \<noteq> DNull
         \<and> (\<exists>e'. ScanError 11 (DriverError ''unsupported Scan (float64)'') = ScanError i e')"
    using mp[OF th[THEN conjunct2, THEN conjunct1] s2] by (simp add: ex_cols_def)
  have d: "\<exists>c\<in>set [ex_cols (DString ''A1'') (DString ''n/a''),
                 ex_cols (DString ''A2'') DNull,
                 ex_cols (DString ''A3'') (DFloat 0x4059200000000000)].
        \<exists>w. Scan ex_cv c = Inr w
          \<and> map snd (new_row insertSQL (args (ex_vars ''A2'' \<lparr>V = 0, Valid = False\<rparr>))) = args w
          \<and> map (\<lambda>x. snd x = DNull)
                (new_row insertSQL (args (ex_vars ''A2'' \<lparr>V = 0, Valid = False\<rparr>)))
              = map (\<lambda>x. x = DNull) c"
  proof -
    have resolve: "\<And>A B. A \<or> B \<Longrightarrow> \<not> A \<Longrightarrow> B" by blast
    from bspec[OF mp[OF th[THEN conjunct2, THEN conjunct2, THEN conjunct2, THEN conjunct1]
          Query_ex_skip] m]
    have "new_row insertSQL (args (ex_vars ''A2'' \<lparr>V = 0, Valid = False\<rparr>))
            \<in> set (SalesDB ex_target) \<or> (\<exists>c\<in>set (cursor \<lparr>cursor =
            [ex_cols (DString ''A1'') (DString ''n/a''),
             ex_cols (DString ''A2'') DNull,
             ex_cols (DString ''A3'') (DFloat 0x4059200000000000)],
          Err = None\<rparr>). \<exists>w. Scan ex_cv c = Inr w
          \<and> map fst (new_row insertSQL (args (ex_vars ''A2'' \<lparr>V = 0, Valid = False\<rparr>))) = into_columns insertSQL
          \<and> map snd (new_row insertSQL (args (ex_vars ''A2'' \<lparr>V = 0, Valid = False\<rparr>))) = args w
          \<and> map (\<lambda>x. snd x = DNull)
                (new_row insertSQL (args (ex_vars ''A2'' \<lparr>V = 0, Valid = False\<rparr>)))
              = map (\<lambda>x. x = DNull) c)" .
    from resolve[OF this nm]
    have "\<exists>c\<in>set (cursor \<lparr>cursor =
            [ex_cols (DString ''A1'') (DString ''n/a''),
             ex_cols (DString ''A2'') DNull,
             ex_cols (DString ''A3'') (DFloat 0x4059200000000000)],
          Err = None\<rparr>). \<exists>w. Scan ex_cv c = Inr w
          \<and> map fst (new_row insertSQL (args (ex_vars ''A2'' \<lparr>V = 0, Valid = False\<rparr>))) = into_columns insertSQL
          \<and> map snd (new_row insertSQL (args (ex_vars ''A2'' \<lparr>V = 0, Valid = False\<rparr>))) = args w
          \<and> map (\<lambda>x. snd x = DNull)
                (new_row insertSQL (args (ex_vars ''A2'' \<lparr>V = 0, Valid = False\<rparr>)))
              = map (\<lambda>x. x = DNull) c"
      .
    then obtain c w where "c \<in> set (cursor \<lparr>cursor =
            [ex_cols (DString ''A1'') (DString ''n/a''),
             ex_cols (DString ''A2'') DNull,
             ex_cols (DString ''A3'') (DFloat 0x4059200000000000)],
          Err = None\<rparr>)" "Scan ex_cv c = Inr w"
        "map snd (new_row insertSQL (args (ex_vars ''A2'' \<lparr>V = 0, Valid = False\<rparr>))) = args w"
        "map (\<lambda>x. snd x = DNull)
                (new_row insertSQL (args (ex_vars ''A2'' \<lparr>V = 0, Valid = False\<rparr>)))
              = map (\<lambda>x. x = DNull) c" by blast
    then show ?thesis unfolding Rows.simps by (intro bexI[of _ c] exI[of _ w] conjI)
  qed
  from a b have a': "map (\<lambda>x. x = DNull) (args (ex_vars ''A2'' \<lparr>V = 0, Valid = False\<rparr>))
       = [False, False, True, False, True, False, False, False, False, True, False, True]"
    by (rule trans)
  have k: "Scan ex_cv (ex_cols DNull (DFloat 0x4059200000000000))
             = Inr (ex_vars_null_key \<lparr>V = 0x4059200000000000, Valid = True\<rparr>)
           \<and> ex_cols DNull (DFloat 0x4059200000000000) ! 0 = DNull"
    by (simp add: Scan_ex_null_key) (simp add: ex_cols_def)
  have h: "hard_error ex_target insertSQL 0
         (args (ex_vars_null_key \<lparr>V = 0x4059200000000000, Valid = True\<rparr>)) \<noteq> None"
    using mp[OF th[THEN conjunct2, THEN conjunct2, THEN conjunct2, THEN conjunct2] k]
    by (rule conjunct2)
  from live[THEN conjunct2] b
  have sp: "map (\<lambda>x. snd x = DNull)
         (new_row insertSQL (args (ex_vars ''A2'' \<lparr>V = 0, Valid = False\<rparr>)))
       = [False, False, True, False, True, False, False, False, False, True, False, True]"
    by (rule trans)
  from s1 a' b s2 c ok m sp d k[THEN conjunct1] h show ?thesis by (intro conjI)
qed

text \<open>
  C6 as stated fails for \<^verbatim>\<open>fsno\<close>: a source row whose \<^verbatim>\<open>fsno\<close> is NULL decodes and is
  bound with a NULL first argument, but it is not stored as NULL in the target. The
  primary key rejects the insert, the run ends with the error and the target stays empty.
\<close>

theorem null_key_is_not_stored_counterexample:
  "Query (ex_source ex_sales_null_key) query =
     Inr \<lparr>cursor = [ex_cols DNull (DFloat 0x4059200000000000)], Err = None\<rparr>
   \<and> ex_cols DNull (DFloat 0x4059200000000000) ! 0 = DNull
   \<and> Scan ex_cv (ex_cols DNull (DFloat 0x4059200000000000))
       = Inr (ex_vars_null_key \<lparr>V = 0x4059200000000000, Valid = True\<rparr>)
   \<and> args (ex_vars_null_key \<lparr>V = 0x4059200000000000, Valid = True\<rparr>) ! 0 = DNull
   \<and> ret_err (runETL ex_cv (ex_source ex_sales_null_key) ex_target)
       = Some (Errorf ''error executing insert statement''
                 (DriverError ''pq: null value violates not-null constraint''))
   \<and> SalesDB (target (runETL ex_cv (ex_source ex_sales_null_key) ex_target)) = []"
proof -
  have d: "decoded ex_cv (cursor \<lparr>cursor = [ex_cols DNull (DFloat 0x4059200000000000)],
             Err = None\<rparr>) =
        [] @ ex_vars_null_key \<lparr>V = 0x4059200000000000, Valid = True\<rparr> # []"
    by (simp add: Scan_ex_null_key)
  have n: "no_hard_error ex_target insertSQL 0 []"
    by simp
  have h: "hard_error ex_target insertSQL (length ([] :: vars list))
             (args (ex_vars_null_key \<lparr>V = 0x4059200000000000, Valid = True\<rparr>))
           = Some (DriverError ''pq: null value violates not-null constraint'')"
    by (simp add: hard_error_ex_null_key)
  have b: "begin_err ex_target = None" and p: "prepare_err ex_target = None"
    by (simp_all add: ex_target_def)
  from runETL_abort[OF Query_ex_null_key b p d n h]
  have r: "ret_err (runETL ex_cv (ex_source ex_sales_null_key) ex_target)
       = Some (Errorf ''error executing insert statement''
                 (DriverError ''pq: null value violates not-null constraint''))"
    "SalesDB (target (runETL ex_cv (ex_source ex_sales_null_key) ex_target)) = []"
    by (auto simp: ex_target_def)
  have c0: "ex_cols DNull (DFloat 0x4059200000000000) ! 0 = DNull"
    by (simp add: ex_cols_def)
  have a0: "args (ex_vars_null_key \<lparr>V = 0x4059200000000000, Valid = True\<rparr>) ! 0 = DNull"
    by (simp add: args_def ex_vars_null_key_def NullString_Value_def Null_Value_def)
  from Query_ex_null_key c0 Scan_ex_null_key a0 r show ?thesis by (intro conjI)
qed

text \<open>
  C8 (deterministic extraction order), as amended. The source is unchanged between two
  runs when its table holds the same rows (as a bag; the storage order is the server's
  business) and the server, its collation and its failures are the same. The query then
  succeeds in both runs or in neither; the rows are visited in ascending order of the
  \<^verbatim>\<open>fsno\<close> sort key, and the sequence of sort keys visited is the same in both runs.
  When no two rows of the table have the same \<^verbatim>\<open>fsno\<close> sort key, the rows are visited in
  the identical order and the two runs are equal.
\<close>

theorem extraction_order:
  fixes s1 s2 :: "('o::linorder) sourceDB"
  assumes "map_of (tables s1) sourceTableName = Some t1"
    and "map_of (tables s2) sourceTableName = Some t2"
    and "mset t1 = mset t2"
    and "collation s2 = collation s1" and "query_err s2 = query_err s1"
    and "stream_err s2 = stream_err s1"
    and "Query s1 query = Inr r1"
  shows "\<exists>r2. Query s2 query = Inr r2
           \<and> sorted (map (\<lambda>cols. collation s1 (hd cols)) (cursor r1))
           \<and> map (\<lambda>cols. collation s1 (hd cols)) (cursor r2)
               = map (\<lambda>cols. collation s1 (hd cols)) (cursor r1)
           \<and> (distinct (map (sort_key_of s1 query) t1) \<longrightarrow>
                 r2 = r1 \<and> runETL cv s2 targetDB = runETL cv s1 targetDB)"
proof -
  let ?c = "\<lambda>kv. collation s1 (fst kv)"
  let ?k = "\<lambda>cols. collation s1 (hd cols)"
  let ?rows = "\<lambda>l. case stream_err s1 of
                  None \<Rightarrow> \<lparr>cursor = l, Err = None\<rparr>
                | Some (n, e) \<Rightarrow> \<lparr>cursor = take n l, Err = Some e\<rparr>"
  have ft: "from_table query = sourceTableName" by (simp add: query_def)
  from Query_Inr_D[OF assms(7)] assms(1) ft
  obtain kvs1 where qe: "query_err s1 = None"
    and th1: "those (map (eval_row query) t1) = Some kvs1"
    and r1: "r1 = ?rows (map snd (sort_key ?c kvs1))" by auto
  from those_map_mset[OF th1 assms(3)] obtain kvs2
    where th2: "those (map (eval_row query) t2) = Some kvs2" and ms: "mset kvs2 = mset kvs1"
    by blast
  define l1 where "l1 = map snd (sort_key ?c kvs1)"
  define l2 where "l2 = map snd (sort_key ?c kvs2)"
  define r2 where "r2 = ?rows l2"
  have r1': "r1 = ?rows l1" using r1 by (simp only: l1_def)
  have "query_err s2 = None" and "map_of (tables s2) (from_table query) = Some t2"
    using qe assms(2,5) ft by simp_all
  from Query_Inr_I[OF this th2] have q2: "Query s2 query = Inr r2"
    unfolding assms(4,6) r2_def l2_def .
  from th1 have m1: "map (eval_row query) t1 = map Some kvs1" by (simp add: those_Some_iff)
  from eval_rows_keys[OF m1, of s1]
  have keys1: "map (sort_key_of s1 query) t1 = map (\<lambda>kv. Some (?c kv)) kvs1"
    and hd1: "\<forall>kv\<in>set kvs1. hd (snd kv) = fst kv" by simp_all
  have set2: "set kvs2 = set kvs1" using ms by (rule mset_eq_setD)
  have proj: "map ?k (map snd l) = map ?c l" if "set l \<subseteq> set kvs1" for l
    using that hd1 by (induction l) auto
  have p1: "map ?k l1 = map ?c (sort_key ?c kvs1)"
    unfolding l1_def by (rule proj) simp
  have p2: "map ?k l2 = map ?c (sort_key ?c kvs2)"
    unfolding l2_def by (rule proj) (simp add: set2)
  have "map ?c (sort_key ?c kvs2) = map ?c (sort_key ?c kvs1)"
    using ms by (rule sort_key_keys)
  with p1 p2 have same: "map ?k l2 = map ?k l1" by simp
  have "sorted (map ?c (sort_key ?c kvs1))" by (rule sorted_sort_key)
  with p1 have srt: "sorted (map ?k l1)" by simp
  have c1: "sorted (map ?k (cursor r1))"
  proof (cases "stream_err s1")
    case None
    then show ?thesis using srt by (simp add: r1')
  next
    case (Some ne)
    obtain n e where "ne = (n, e)" by (cases ne)
    with Some have "map ?k (cursor r1) = take n (map ?k l1)"
      by (simp add: r1' take_map)
    with srt show ?thesis by simp
  qed
  have c2: "map ?k (cursor r2) = map ?k (cursor r1)"
  proof (cases "stream_err s1")
    case None
    then show ?thesis using same by (simp add: r1' r2_def)
  next
    case (Some ne)
    obtain n e where ne: "ne = (n, e)" by (cases ne)
    have "map ?k (take n l2) = take n (map ?k l2)" by (simp add: take_map)
    moreover have "map ?k (take n l1) = take n (map ?k l1)" by (simp add: take_map)
    ultimately show ?thesis using Some ne same by (simp add: r1' r2_def)
  qed
  have c3: "r2 = r1 \<and> runETL cv s2 targetDB = runETL cv s1 targetDB"
    if d: "distinct (map (sort_key_of s1 query) t1)"
  proof -
    have dm: "distinct (map Some xs) \<Longrightarrow> distinct xs" for xs :: "'o list"
      by (induction xs) auto
    have "map (\<lambda>kv. Some (?c kv)) kvs1 = map Some (map ?c kvs1)" by simp
    with d keys1 have "distinct (map Some (map ?c kvs1))" by (simp only:)
    then have "distinct (map ?c kvs1)" by (rule dm)
    from sort_key_unique[OF ms[symmetric] this]
    have "sort_key ?c kvs1 = sort_key ?c kvs2" .
    then have "l2 = l1" by (simp add: l1_def l2_def)
    then have e: "r2 = r1" unfolding r1' r2_def by (rule arg_cong)
    with q2 assms(7) have "Query s2 query = Query s1 query" by simp
    from runETL_same_Query[OF this] e show ?thesis by simp
  qed
  from q2 c1 c2 c3 show ?thesis by blast
qed


theorem extraction_order_witness:
  "mset ex_sales_skip = mset (rev ex_sales_skip)
   \<and> distinct (map (sort_key_of (ex_source ex_sales_skip) query) ex_sales_skip)
   \<and> Query (ex_source (rev ex_sales_skip)) query = Query (ex_source ex_sales_skip) query
   \<and> runETL ex_cv (ex_source (rev ex_sales_skip)) ex_target
       = runETL ex_cv (ex_source ex_sales_skip) ex_target"
proof -
  have t1: "map_of (tables (ex_source ex_sales_skip)) sourceTableName = Some ex_sales_skip"
    and t2: "map_of (tables (ex_source (rev ex_sales_skip))) sourceTableName
               = Some (rev ex_sales_skip)"
    by (simp_all add: ex_source_def sourceTableName_def)
  have b: "mset ex_sales_skip = mset (rev ex_sales_skip)" by simp
  have e: "collation (ex_source (rev ex_sales_skip)) = collation (ex_source ex_sales_skip)"
    "query_err (ex_source (rev ex_sales_skip)) = query_err (ex_source ex_sales_skip)"
    "stream_err (ex_source (rev ex_sales_skip)) = stream_err (ex_source ex_sales_skip)"
    by (simp_all add: ex_source_def)
  have d: "distinct (map (sort_key_of (ex_source ex_sales_skip) query) ex_sales_skip)"
    by (simp add: sort_key_of_def ex_source_def ex_sales_skip_def ex_row_def ex_cols_def
        query_def)
  from extraction_order[OF t1 t2 b e Query_ex_skip, of ex_cv ex_target] d
  obtain r2 where "Query (ex_source (rev ex_sales_skip)) query = Inr r2"
    and "r2 = \<lparr>cursor =
            [ex_cols (DString ''A1'') (DString ''n/a''),
             ex_cols (DString ''A2'') DNull,
             ex_cols (DString ''A3'') (DFloat 0x4059200000000000)],
          Err = None\<rparr>"
    and r: "runETL ex_cv (ex_source (rev ex_sales_skip)) ex_target
              = runETL ex_cv (ex_source ex_sales_skip) ex_target"
    by blast
  then have "Query (ex_source (rev ex_sales_skip)) query = Query (ex_source ex_sales_skip) query"
    by (simp add: Query_ex_skip)
  with b d r show ?thesis by (intro conjI)
qed

text \<open>
  C8 as stated fails: the query orders by \<^verbatim>\<open>fsno\<close> alone, which leaves the order of rows
  with equal \<^verbatim>\<open>fsno\<close> open. Over the same two rows with \<^verbatim>\<open>fsno\<close> \<^verbatim>\<open>A1\<close>, stored in the
  one order or the other, the two runs visit the rows in different orders.
\<close>

theorem equal_keys_leave_the_order_open_counterexample:
  "mset (rev ex_sales_tie) = mset ex_sales_tie
   \<and> Query (ex_source ex_sales_tie) query =
       Inr \<lparr>cursor =
              [ex_cols (DString ''A1'') DNull,
               ex_cols (DString ''A1'') (DFloat 0x4059200000000000)],
            Err = None\<rparr>
   \<and> Query (ex_source (rev ex_sales_tie)) query =
       Inr \<lparr>cursor =
              [ex_cols (DString ''A1'') (DFloat 0x4059200000000000),
               ex_cols (DString ''A1'') DNull],
            Err = None\<rparr>
   \<and> Query (ex_source (rev ex_sales_tie)) query \<noteq> Query (ex_source ex_sales_tie) query"
proof -
  have "ex_cols (DString ''A1'') (DFloat 0x4059200000000000) \<noteq> ex_cols (DString ''A1'') DNull"
    by (simp add: ex_cols_def)
  then have "Query (ex_source (rev ex_sales_tie)) query \<noteq> Query (ex_source ex_sales_tie) query"
    by (simp add: Query_ex_tie Query_ex_tie_rev)
  moreover have "mset (rev ex_sales_tie) = mset ex_sales_tie" by simp
  ultimately show ?thesis using Query_ex_tie Query_ex_tie_rev by (intro conjI)
qed

end
